theory Spec2Isabelle
  imports Main "HOL-Library.Word"
begin

section \<open>The schedule scraper of Rush-PH-Messenger\<close>

text \<open>
  A shallow embedding of \<^verbatim>\<open>src/scraper/playwright-rush-scraper.js\<close> (class
  \<^verbatim>\<open>PlaywrightRushScraper\<close>) and of the cache diagnostics and the minutes-away helper of
  its Puppeteer predecessor (class \<^verbatim>\<open>RushScraper\<close>).

  Conventions of the embedding.
  \<^item> A JavaScript string is a \<open>string\<close>: the development covers strings whose UTF-16 code
    units are below 256 (Latin-1), which is where every station and line name of the
    repository lives. \<open>of_char\<close> is \<^verbatim>\<open>charCodeAt\<close>.
  \<^item> An instant (\<^verbatim>\<open>Date\<close>, \<^verbatim>\<open>Date.now()\<close>) is an \<open>int\<close>, the milliseconds since the epoch.
    An ISO timestamp string is represented by its instant.
  \<^item> Local time is UTC plus a fixed offset in milliseconds (no daylight-saving change falls
    between the two instants a computation compares).
  \<^item> Everything the browser, the page and the clock answer is read from a record, the
    \<open>world\<close>; a rejected promise is \<open>Inl\<close> of a \<open>failure\<close>.
  \<^item> Every \<^verbatim>\<open>async\<close> method returns \<open>failure + 'a\<close>, paired with the scraper object
    after the call.
\<close>

subsection \<open>Strings and numbers of the host language\<close>

text \<open>\<^verbatim>\<open>String.prototype.toLowerCase\<close> on Latin-1: A-Z and the accented capitals
  U+00C0..U+00DE (the multiplication sign U+00D7 apart) move up by 32.\<close>

definition toLowerCase_char :: "char \<Rightarrow> char" where
  "toLowerCase_char c =
     (let n = (of_char c :: nat)
      in if (65 \<le> n \<and> n \<le> 90) \<or> (192 \<le> n \<and> n \<le> 222 \<and> n \<noteq> 215)
         then char_of (n + 32) else c)"

definition toLowerCase :: "string \<Rightarrow> string" where
  "toLowerCase s = map toLowerCase_char s"

text \<open>\<^verbatim>\<open>s.includes(sub)\<close>.\<close>

fun startsWith :: "string \<Rightarrow> string \<Rightarrow> bool" where
  "startsWith s [] = True"
| "startsWith [] (c # cs) = False"
| "startsWith (x # xs) (c # cs) = (x = c \<and> startsWith xs cs)"

fun str_includes :: "string \<Rightarrow> string \<Rightarrow> bool" where
  "str_includes [] sub = (sub = [])"
| "str_includes (x # xs) sub = (startsWith (x # xs) sub \<or> str_includes xs sub)"

text \<open>\<^verbatim>\<open>s.split(sep)\<close> for a separator that matches single characters: the pieces
  between the separators, the empty string giving one empty piece.\<close>

fun splitOn :: "(char \<Rightarrow> bool) \<Rightarrow> string \<Rightarrow> string list" where
  "splitOn P [] = [[]]"
| "splitOn P (c # cs) =
     (if P c then [] # splitOn P cs
      else (case splitOn P cs of
              [] \<Rightarrow> [[c]]
            | r # rs \<Rightarrow> (c # r) # rs))"

text \<open>A JavaScript number that the code may produce: an integer or \<^verbatim>\<open>NaN\<close>.\<close>

datatype number = Num int | NaN

definition isWhiteSpace :: "char \<Rightarrow> bool" where
  "isWhiteSpace c = ((of_char c :: nat) \<in> {9, 10, 11, 12, 13, 32, 160})"

definition isDigit :: "char \<Rightarrow> bool" where
  "isDigit c = (48 \<le> (of_char c :: nat) \<and> (of_char c :: nat) \<le> 57)"

text \<open>The value of a character as a digit of any radix up to 36.\<close>

definition digitValue :: "char \<Rightarrow> int option" where
  "digitValue c =
     (let n = (of_char c :: nat)
      in if 48 \<le> n \<and> n \<le> 57 then Some (int (n - 48))
         else if 97 \<le> n \<and> n \<le> 122 then Some (int (n - 87))
         else if 65 \<le> n \<and> n \<le> 90 then Some (int (n - 55))
         else None)"

definition isRadixDigit :: "int \<Rightarrow> char \<Rightarrow> bool" where
  "isRadixDigit radix c = (case digitValue c of None \<Rightarrow> False | Some v \<Rightarrow> v < radix)"

definition digitsValue :: "int \<Rightarrow> string \<Rightarrow> int" where
  "digitsValue radix ds = foldl (\<lambda>a c. a * radix + the (digitValue c)) 0 ds"

text \<open>\<^verbatim>\<open>parseInt(s)\<close> with no radix argument: leading white space is skipped, a sign is
  read, a \<^verbatim>\<open>0x\<close> prefix selects radix 16, and the longest run of digits is read; no digit
  gives \<^verbatim>\<open>NaN\<close> (\<open>None\<close>). The value is the exact integer (JavaScript rounds it to a double
  above \<open>2^53\<close>; the order against small constants is the same).\<close>

definition parseInt :: "string \<Rightarrow> int option" where
  "parseInt s =
     (let s1 = dropWhile isWhiteSpace s;
          sg = (case s1 of c # r \<Rightarrow> if c = CHR ''-'' then (- 1 :: int) else 1 | [] \<Rightarrow> 1);
          s2 = (case s1 of c # r \<Rightarrow> if c = CHR ''-'' \<or> c = CHR ''+'' then r else s1 | [] \<Rightarrow> s1);
          hex = (case s2 of
                   a # b # r \<Rightarrow> a = CHR ''0'' \<and> (b = CHR ''x'' \<or> b = CHR ''X'')
                 | _ \<Rightarrow> False);
          radix = (if hex then 16 else 10);
          s3 = (if hex then drop 2 s2 else s2);
          ds = takeWhile (isRadixDigit radix) s3
      in if ds = [] then None else Some (sg * digitsValue radix ds))"

text \<open>\<^verbatim>\<open>Number(s)\<close> on the strings the time patterns capture: a run of decimal digits has
  its decimal value. \<open>None\<close> is \<^verbatim>\<open>NaN\<close>; the other numeric literals of the language (sign,
  fraction, exponent, radix prefix, padding, the empty string) never reach the callers
  modelled here and are not given a value.\<close>

definition Number_digits :: "string \<Rightarrow> int option" where
  "Number_digits s =
     (if s \<noteq> [] \<and> list_all isDigit s then Some (digitsValue 10 s) else None)"

text \<open>The remainder operator \<^verbatim>\<open>%\<close>: the sign follows the dividend.\<close>

definition js_rem :: "int \<Rightarrow> int \<Rightarrow> int" where
  "js_rem a b = sgn a * (\<bar>a\<bar> mod \<bar>b\<bar>)"

subsection \<open>Data model\<close>

datatype failure =
  LaunchFailure | NavigationFailure | InteractionFailure | ParseFailure | TeardownFailure

datatype train_status = OnTime | Delayed | Cancelled

datatype train_direction = Northbound | Southbound

text \<open>One departure. The last three fields exist only on extracted entries.\<close>

record train =
  time :: string
  minutesAway :: number
  status :: train_status
  direction :: "train_direction option"
  extractedFrom :: "string option"
  contextText :: "string option"

record extractionDetails =
  selectorsUsed :: nat
  totalFound :: nat
  uniqueReturned :: nat

text \<open>The record returned to callers. A field that an object may lack is an option; the
  field \<^verbatim>\<open>status\<close> of the source is \<open>recordStatus\<close> here.\<close>

record schedule =
  line :: string
  origin :: string
  destination :: string
  nextTrains :: "train list"
  estimatedTravelTime :: "int option"
  lastUpdated :: "int option"
  extractedAt :: "int option"
  recordStatus :: "string option"
  simulated :: bool
  source :: "string option"
  details :: "extractionDetails option"

record cache_entry =
  data :: schedule
  timestamp :: int

text \<open>The scraper object. The cache is a \<^verbatim>\<open>Map\<close>: an association list in insertion order
  with one pair per key. The browser is a handle or \<^verbatim>\<open>null\<close>.\<close>

record scraper =
  cacheDuration :: int
  useBrowserScraper :: bool
  browserTimeout :: int
  cache :: "(string \<times> cache_entry) list"
  browser :: "nat option"
  browserType :: string

text \<open>\<^verbatim>\<open>Map.prototype.set\<close>: an existing key keeps its place and takes the new value, a new
  key goes to the end. \<^verbatim>\<open>Map.prototype.get\<close> is \<open>map_of\<close>.\<close>

fun Map_set :: "'k \<Rightarrow> 'v \<Rightarrow> ('k \<times> 'v) list \<Rightarrow> ('k \<times> 'v) list" where
  "Map_set k v [] = [(k, v)]"
| "Map_set k v (p # ps) = (if fst p = k then (k, v) # ps else p # Map_set k v ps)"

subsection \<open>Construction\<close>

text \<open>The constructor's options and the environment variables it reads.
  \<open>env_cacheDuration\<close> and \<open>env_browserTimeout\<close> are the results of \<^verbatim>\<open>parseInt\<close> on the
  variables (\<open>None\<close> for \<^verbatim>\<open>NaN\<close>), \<open>env_useBrowser\<close> is the test
  \<^verbatim>\<open>USE_BROWSER_SCRAPER === 'true'\<close>.\<close>

record options =
  opt_cacheDuration :: "int option"
  opt_useBrowser :: "bool option"
  opt_browserTimeout :: "int option"
  opt_browserType :: "string option"

record environment =
  env_cacheDuration :: "int option"
  env_useBrowser :: bool
  env_browserTimeout :: "int option"

text \<open>\<^verbatim>\<open>a || b\<close> on a number that may be missing: zero, \<^verbatim>\<open>NaN\<close> and \<^verbatim>\<open>undefined\<close> are falsy.\<close>

definition orElse :: "int option \<Rightarrow> int \<Rightarrow> int" where
  "orElse a b = (case a of None \<Rightarrow> b | Some n \<Rightarrow> if n = 0 then b else n)"

definition constructor :: "options \<Rightarrow> environment \<Rightarrow> scraper" where
  "constructor opts env =
     \<lparr> cacheDuration = orElse (opt_cacheDuration opts) (orElse (env_cacheDuration env) 300),
       useBrowserScraper =
         (case opt_useBrowser opts of None \<Rightarrow> env_useBrowser env | Some b \<Rightarrow> b),
       browserTimeout = orElse (opt_browserTimeout opts) (orElse (env_browserTimeout env) 30000),
       cache = [],
       browser = None,
       browserType =
         (case opt_browserType opts of
            None \<Rightarrow> ''chromium''
          | Some t \<Rightarrow> if t = [] then ''chromium'' else t) \<rparr>"

subsection \<open>Cache helpers\<close>

text \<open>\<^verbatim>\<open>_isCacheValid(timestamp)\<close>, the reading of \<^verbatim>\<open>Date.now()\<close> made explicit.\<close>

definition isCacheValid :: "scraper \<Rightarrow> int \<Rightarrow> int \<Rightarrow> bool" where
  "isCacheValid s now ts = (now - ts < cacheDuration s * 1000)"

definition getCacheKey :: "string \<Rightarrow> string \<Rightarrow> string" where
  "getCacheKey orig dest = toLowerCase orig @ ''_'' @ toLowerCase dest"

text \<open>The cache check that opens \<^verbatim>\<open>scrapeTrainSchedule\<close>: the record stored under the key
  when there is one and it is still valid.\<close>

definition cachedRecord :: "scraper \<Rightarrow> int \<Rightarrow> string \<Rightarrow> schedule option" where
  "cachedRecord s now cacheKey =
     (case map_of (cache s) cacheKey of
        None \<Rightarrow> None
      | Some e \<Rightarrow> if isCacheValid s now (timestamp e) then Some (data e) else None)"

subsection \<open>Simulated data\<close>

text \<open>\<^verbatim>\<open>_hashString\<close>: \<^verbatim>\<open>hash & hash\<close> brings the running value back to a signed 32-bit
  integer after every character, so the loop is arithmetic on a 32-bit word; the result
  is the absolute value of its signed reading (\<open>2^31\<close> for the least one).\<close>

definition hashStep :: "char \<Rightarrow> 32 word \<Rightarrow> 32 word" where
  "hashStep c h = (push_bit 5 h - h) + of_nat (of_char c)"

definition hashString :: "string \<Rightarrow> int" where
  "hashString str = \<bar>sint (fold hashStep str 0)\<bar>"

definition intervals :: "int list" where
  "intervals = [3, 5, 7, 8, 10]"

text \<open>\<^verbatim>\<open>_simulateTrainData\<close>. \<open>fmt\<close> is \<^verbatim>\<open>toLocaleTimeString\<close> with the options of the source
  (two-digit hour and minute, 24-hour clock) in the time zone of the process, \<open>now\<close> the
  instant \<^verbatim>\<open>new Date()\<close> reads.\<close>

definition simulatedTrain :: "(int \<Rightarrow> string) \<Rightarrow> int \<Rightarrow> nat \<Rightarrow> train" where
  "simulatedTrain fmt currentTime i =
     (let minutesAhead = foldl (+) 0 (take (i + 1) intervals);
          trainTime = currentTime + minutesAhead * 60000
      in \<lparr> time = fmt trainTime,
           minutesAway = Num minutesAhead,
           status = (if minutesAhead \<le> 15 then OnTime
                     else if minutesAhead > 20 then Delayed else OnTime),
           direction = None,
           extractedFrom = None,
           contextText = None \<rparr>)"

definition simulateTrainData ::
  "(int \<Rightarrow> string) \<Rightarrow> int \<Rightarrow> string \<Rightarrow> string \<Rightarrow> string \<Rightarrow> schedule" where
  "simulateTrainData fmt currentTime orig dest ln =
     (let trainTimes = map (simulatedTrain fmt currentTime) [0 ..< 5];
          stationCount = \<bar>js_rem (hashString orig) 10\<bar> + 2;
          estimatedTravel = 3 * stationCount
      in \<lparr> line = ln,
           origin = orig,
           destination = dest,
           nextTrains = trainTimes,
           estimatedTravelTime = Some estimatedTravel,
           lastUpdated = Some currentTime,
           extractedAt = None,
           recordStatus = Some ''operational'',
           simulated = True,
           source = None,
           details = None \<rparr>)"

definition estimateTravelTime :: "string \<Rightarrow> string \<Rightarrow> int" where
  "estimateTravelTime orig dest =
     (let stationDistance = \<bar>js_rem (hashString orig) 10\<bar> + 2
      in max 5 (stationDistance * 3))"

subsection \<open>The world\<close>

text \<open>One regular-expression capture met by the scan of the page, in the order the
  nested loops over selectors, elements, patterns and matches meet it: the captured group
  \<^verbatim>\<open>match[1]\<close>, the trimmed text of the element, the lower-cased text of its parent, the
  selector, and the number read by \<^verbatim>\<open>text.match(/(\d+)\s*min/i)\<close> when the text has one.\<close>

record candidate =
  cleanTime :: string
  elemText :: string
  surroundingText :: string
  selector :: string
  minutesMatch :: "int option"

text \<open>What the environment answers during one call. Each awaited browser operation
  either succeeds or throws. For the three helpers whose whole body is one
  \<^verbatim>\<open>try\<close> block over page interactions (\<^verbatim>\<open>_selectTrainLine\<close>, \<^verbatim>\<open>_performStationSearch\<close>
  with \<^verbatim>\<open>_waitForTrainData\<close>), the field is the outcome of that block: the value it
  returns, or the error an interaction throws. The clock fields are the readings of
  \<^verbatim>\<open>new Date()\<close> and \<^verbatim>\<open>Date.now()\<close> at the named places.\<close>

record world =
  w_launch :: "failure + nat"
  w_newContext :: "failure + unit"
  w_newPage :: "failure + unit"
  w_goto :: "failure + unit"
  w_settle_loaded :: "failure + unit"
  w_selectTrainLine :: "failure + bool"
  w_settle_line :: "failure + unit"
  w_performStationSearch :: "failure + bool"
  w_settle_search :: "failure + unit"
  w_settle_extract :: "failure + unit"
  w_evaluate :: "failure + candidate list"
  w_page_close :: "failure + unit"
  w_context_close :: "failure + unit"
  w_browser_close :: "failure + unit"
  w_now_check :: int
  w_now_simulate :: int
  w_now_put :: int
  w_now_extracted :: int
  w_now_calc :: "nat \<Rightarrow> int"
  w_now_updated :: int
  w_tzOffset :: int
  w_toLocaleTimeString :: "int \<Rightarrow> string"

text \<open>Sequencing of awaited operations: the first rejection ends the block.\<close>

definition await :: "failure + 'a \<Rightarrow> ('a \<Rightarrow> failure + 'b) \<Rightarrow> failure + 'b" where
  "await m f = (case m of Inl e \<Rightarrow> Inl e | Inr x \<Rightarrow> f x)"

text \<open>\<^verbatim>\<open>try { m } catch (error) { return h }\<close>.\<close>

definition tryCatch :: "failure + 'a \<Rightarrow> 'a \<Rightarrow> 'a" where
  "tryCatch m h = (case m of Inl e \<Rightarrow> h | Inr x \<Rightarrow> x)"

subsection \<open>Browser session\<close>

text \<open>\<^verbatim>\<open>_initBrowser\<close>: the live handle when there is one; else a launch, whose failure
  clears the reference and is thrown again.\<close>

definition initBrowser :: "world \<Rightarrow> scraper \<Rightarrow> (failure + nat) \<times> scraper" where
  "initBrowser w s =
     (case browser s of
        Some b \<Rightarrow> (Inr b, s)
      | None \<Rightarrow>
          (case w_launch w of
             Inr b \<Rightarrow> (Inr b, s\<lparr>browser := Some b\<rparr>)
           | Inl e \<Rightarrow> (Inl e, s\<lparr>browser := None\<rparr>)))"

text \<open>\<^verbatim>\<open>_closeBrowser\<close>: the error of \<^verbatim>\<open>close\<close> is logged and dropped, the reference is
  cleared in the \<^verbatim>\<open>finally\<close> block.\<close>

definition closeBrowser :: "world \<Rightarrow> scraper \<Rightarrow> (failure + unit) \<times> scraper" where
  "closeBrowser w s =
     (case browser s of
        None \<Rightarrow> (Inr (), s)
      | Some b \<Rightarrow> (Inr (tryCatch (w_browser_close w) ()), s\<lparr>browser := None\<rparr>))"

subsection \<open>Extraction from the page\<close>

text \<open>The bounds check on a captured token (lines 575 to 580).\<close>

definition isSeparator :: "char \<Rightarrow> bool" where
  "isSeparator c = (c = CHR '':'' \<or> c = CHR ''.'')"

definition validTimeToken :: "string \<Rightarrow> bool" where
  "validTimeToken tok =
     (let timeParts = splitOn isSeparator tok
      in if length timeParts = 2
         then (case (parseInt (timeParts ! 0), parseInt (timeParts ! 1)) of
                 (Some hours, Some minutes) \<Rightarrow>
                   hours \<ge> 0 \<and> hours \<le> 23 \<and> minutes \<ge> 0 \<and> minutes \<le> 59
               | _ \<Rightarrow> False)
         else False)"

text \<open>The object pushed for an accepted capture.\<close>

definition trainOfCandidate :: "candidate \<Rightarrow> train" where
  "trainOfCandidate c =
     (let st0 = OnTime;
          st1 = (if str_includes (surroundingText c) ''delay'' then Delayed else st0);
          st2 = (if str_includes (surroundingText c) ''cancel'' then Cancelled else st1);
          dir = (if str_includes (surroundingText c) ''north''
                    \<or> str_includes (surroundingText c) ''up''
                 then Some Northbound
                 else if str_includes (surroundingText c) ''south''
                    \<or> str_includes (surroundingText c) ''down''
                 then Some Southbound
                 else None)
      in \<lparr> time = cleanTime c,
           minutesAway = Num (orElse (minutesMatch c) 0),
           status = st2,
           direction = dir,
           extractedFrom = Some (selector c),
           contextText = Some (take 100 (elemText c)) \<rparr>)"

text \<open>One turn of the innermost loop: the pair is \<^verbatim>\<open>processedTimes\<close> and \<^verbatim>\<open>trainTimes\<close>.\<close>

definition scanStep :: "candidate \<Rightarrow> string list \<times> train list \<Rightarrow> string list \<times> train list" where
  "scanStep c acc =
     (case acc of (processedTimes, trainTimes) \<Rightarrow>
        if cleanTime c \<noteq> [] \<and> cleanTime c \<notin> set processedTimes
        then (if validTimeToken (cleanTime c)
              then (processedTimes @ [cleanTime c], trainTimes @ [trainOfCandidate c])
              else (processedTimes, trainTimes))
        else (processedTimes, trainTimes))"

definition scanPage :: "candidate list \<Rightarrow> train list" where
  "scanPage cands = snd (fold scanStep cands ([], []))"

text \<open>\<^verbatim>\<open>Array.prototype.findIndex\<close>, \<open>- 1\<close> when nothing matches.\<close>

fun findIndex :: "('a \<Rightarrow> bool) \<Rightarrow> 'a list \<Rightarrow> int" where
  "findIndex P [] = - 1"
| "findIndex P (x # xs) =
     (if P x then 0 else (let r = findIndex P xs in if r < 0 then - 1 else r + 1))"

text \<open>Lines 630 to 632: keep an entry when it is the first with its time, then the first
  ten.\<close>

definition uniqueTimes :: "train list \<Rightarrow> train list" where
  "uniqueTimes trainTimes =
     take 10 (map snd (filter (\<lambda>(index, t). int index = findIndex (\<lambda>u. time u = time t) trainTimes)
                              (enumerate 0 trainTimes)))"

text \<open>The function run inside the page.\<close>

definition evaluateInPage ::
  "int \<Rightarrow> candidate list \<Rightarrow> string \<Rightarrow> string \<Rightarrow> string \<Rightarrow> schedule option" where
  "evaluateInPage now cands orig dest trainLine =
     (let trainTimes = scanPage cands
      in if length trainTimes > 0
         then Some \<lparr> line = trainLine,
                     origin = orig,
                     destination = dest,
                     nextTrains = uniqueTimes trainTimes,
                     estimatedTravelTime = None,
                     lastUpdated = None,
                     extractedAt = Some now,
                     recordStatus = None,
                     simulated = False,
                     source = Some ''playwright-extraction'',
                     details = Some \<lparr> selectorsUsed = 17,
                                      totalFound = length trainTimes,
                                      uniqueReturned = length (uniqueTimes trainTimes) \<rparr> \<rparr>
         else None)"

text \<open>\<^verbatim>\<open>setHours(hours, minutes, 0, 0)\<close> on a copy of \<open>now\<close>, then the step to the next day
  when the result lies before \<open>now\<close>.\<close>

definition setHours :: "int \<Rightarrow> int \<Rightarrow> int \<Rightarrow> int \<Rightarrow> int" where
  "setHours tz base hours minutes =
     (let localTime = base + tz;
          midnight = localTime - localTime mod 86400000
      in midnight + hours * 3600000 + minutes * 60000 - tz)"

definition rollOver :: "int \<Rightarrow> int \<Rightarrow> int" where
  "rollOver now targetTime = (if targetTime < now then targetTime + 86400000 else targetTime)"

text \<open>\<^verbatim>\<open>_calculateMinutesFromTime\<close>. A missing or non-numeric part makes the date invalid,
  and every later step \<^verbatim>\<open>NaN\<close>. Nothing in the \<^verbatim>\<open>try\<close> block throws on a string.\<close>

definition calculateMinutesFromTime :: "int \<Rightarrow> int \<Rightarrow> string \<Rightarrow> number" where
  "calculateMinutesFromTime tz now timeString =
     (case splitOn (\<lambda>c. c = CHR '':'') timeString of
        h # m # rest \<Rightarrow>
          (case (Number_digits h, Number_digits m) of
             (Some hours, Some minutes) \<Rightarrow>
               (let targetTime = rollOver now (setHours tz now hours minutes)
                in Num (max 0 ((targetTime - now) div 60000)))
           | _ \<Rightarrow> NaN)
      | _ \<Rightarrow> NaN)"

text \<open>Lines 656 to 661, for the train at position \<open>i\<close>.\<close>

definition postProcessTrain :: "world \<Rightarrow> nat \<times> train \<Rightarrow> train" where
  "postProcessTrain w it =
     (case it of (i, t) \<Rightarrow>
        if minutesAway t = Num 0
        then t\<lparr>minutesAway := calculateMinutesFromTime (w_tzOffset w) (w_now_calc w i) (time t)\<rparr>
        else t)"

text \<open>\<^verbatim>\<open>_extractTrainDataFromPage\<close>.\<close>

definition extractTrainDataFromPage ::
  "world \<Rightarrow> string \<Rightarrow> string \<Rightarrow> string \<Rightarrow> failure + schedule option" where
  "extractTrainDataFromPage w orig dest ln =
     Inr (tryCatch
       (await (w_settle_extract w) (\<lambda>_.
        await (w_evaluate w) (\<lambda>cands.
          (case evaluateInPage (w_now_extracted w) cands orig dest ln of
             None \<Rightarrow> Inr None
           | Some scheduleData \<Rightarrow>
               if length (nextTrains scheduleData) > 0
               then Inr (Some (scheduleData
                      \<lparr> nextTrains := map (postProcessTrain w) (enumerate 0 (nextTrains scheduleData)),
                        estimatedTravelTime := Some (estimateTravelTime orig dest),
                        lastUpdated := Some (w_now_updated w),
                        recordStatus := Some ''operational'' \<rparr>))
               else Inr None))))
       None)"

text \<open>\<^verbatim>\<open>_selectTrainLine\<close> and \<^verbatim>\<open>_performStationSearch\<close>: an error inside is logged and
  answered by \<^verbatim>\<open>false\<close>.\<close>

definition selectTrainLine :: "world \<Rightarrow> string \<Rightarrow> failure + bool" where
  "selectTrainLine w ln = Inr (tryCatch (w_selectTrainLine w) False)"

definition performStationSearch :: "world \<Rightarrow> string \<Rightarrow> failure + bool" where
  "performStationSearch w stationName = Inr (tryCatch (w_performStationSearch w) False)"

subsection \<open>The request\<close>

text \<open>The \<^verbatim>\<open>try\<close> block of \<^verbatim>\<open>_attemptDataExtraction\<close> after the browser is there.\<close>

definition extractionSteps ::
  "world \<Rightarrow> string \<Rightarrow> string \<Rightarrow> string \<Rightarrow> failure + schedule option" where
  "extractionSteps w orig dest ln =
     await (w_newContext w) (\<lambda>_.
     await (w_newPage w) (\<lambda>_.
     await (w_goto w) (\<lambda>_.
     await (w_settle_loaded w) (\<lambda>_.
     await (selectTrainLine w ln) (\<lambda>lineSelected.
     await (if lineSelected then w_settle_line w else Inr ()) (\<lambda>_.
     await (performStationSearch w orig) (\<lambda>searchSuccess.
       if \<not> searchSuccess then Inr None
       else
         await (w_settle_search w) (\<lambda>_.
         await (extractTrainDataFromPage w orig dest ln) (\<lambda>trainData.
           (case trainData of
              Some d \<Rightarrow> Inr (Some d)
            | None \<Rightarrow> Inr None))))))))))"

text \<open>The \<^verbatim>\<open>finally\<close> block: page and context are closed, each in its own \<^verbatim>\<open>try\<close>.\<close>

definition closeQuietly :: "world \<Rightarrow> unit" where
  "closeQuietly w = (let u = tryCatch (w_page_close w) () in tryCatch (w_context_close w) ())"

text \<open>\<^verbatim>\<open>_attemptDataExtraction\<close>.\<close>

definition attemptDataExtraction ::
  "world \<Rightarrow> scraper \<Rightarrow> string \<Rightarrow> string \<Rightarrow> string \<Rightarrow> (failure + schedule option) \<times> scraper" where
  "attemptDataExtraction w s orig dest ln =
     (if \<not> useBrowserScraper s then (Inr None, s)
      else
        (case initBrowser w s of (b, s1) \<Rightarrow>
           (let body = await b (\<lambda>_. extractionSteps w orig dest ln);
                result = tryCatch body None;
                u = closeQuietly w
            in (Inr result, s1))))"

text \<open>\<^verbatim>\<open>scrapeTrainSchedule\<close>.\<close>

definition storeRecord :: "world \<Rightarrow> string \<Rightarrow> schedule \<Rightarrow> scraper \<Rightarrow> scraper" where
  "storeRecord w cacheKey r s =
     s\<lparr>cache := Map_set cacheKey \<lparr> data = r, timestamp = w_now_put w \<rparr> (cache s)\<rparr>"

text \<open>The part of \<^verbatim>\<open>scrapeTrainSchedule\<close> after the cache check (lines 173 to 191): the
  attempt, whose rejection is caught, and the simulated record when it gave nothing.\<close>

definition scrapeFresh ::
  "world \<Rightarrow> scraper \<Rightarrow> string \<Rightarrow> string \<Rightarrow> string \<Rightarrow> (failure + schedule) \<times> scraper" where
  "scrapeFresh w s orig dest ln =
     (let cacheKey = getCacheKey orig dest
      in case attemptDataExtraction w s orig dest ln of (response, s1) \<Rightarrow>
           (case tryCatch response None of
              Some r \<Rightarrow> (Inr r, storeRecord w cacheKey r s1)
            | None \<Rightarrow>
                (let simulatedData =
                       simulateTrainData (w_toLocaleTimeString w) (w_now_simulate w) orig dest ln
                 in (Inr simulatedData, storeRecord w cacheKey simulatedData s1))))"

definition scrapeTrainSchedule ::
  "world \<Rightarrow> scraper \<Rightarrow> string \<Rightarrow> string \<Rightarrow> string \<Rightarrow> (failure + schedule) \<times> scraper" where
  "scrapeTrainSchedule w s orig dest ln =
     (let cacheKey = getCacheKey orig dest
      in case cachedRecord s (w_now_check w) cacheKey of
           Some d \<Rightarrow> (Inr d, s)
         | None \<Rightarrow> scrapeFresh w s orig dest ln)"

text \<open>\<^verbatim>\<open>cleanup\<close>.\<close>

definition cleanup :: "world \<Rightarrow> scraper \<Rightarrow> (failure + unit) \<times> scraper" where
  "cleanup w s =
     (case closeBrowser w s of (r, s1) \<Rightarrow>
        (case r of
           Inl e \<Rightarrow> (Inl e, s1)
         | Inr u \<Rightarrow> (Inr (), s1\<lparr>cache := []\<rparr>)))"

subsection \<open>Cache diagnostics and minutes away of \<^verbatim>\<open>RushScraper\<close>\<close>

text \<open>The Puppeteer class has the same fields \<^verbatim>\<open>cache\<close>, \<^verbatim>\<open>cacheDuration\<close> and \<^verbatim>\<open>browser\<close> and
  the same \<^verbatim>\<open>_isCacheValid\<close> and \<^verbatim>\<open>_getCacheKey\<close>, so its methods are given on \<open>scraper\<close>.
  \<open>nows i\<close> is the reading of \<^verbatim>\<open>Date.now()\<close> for the entry at position \<open>i\<close>.\<close>

record cacheInfoEntry =
  info_key :: string
  info_timestamp :: int
  info_valid :: bool
  info_simulated :: bool

record cacheInfo =
  totalEntries :: nat
  info_cacheDuration :: int
  entries :: "cacheInfoEntry list"

definition getCacheInfo :: "scraper \<Rightarrow> (nat \<Rightarrow> int) \<Rightarrow> cacheInfo" where
  "getCacheInfo s nows =
     \<lparr> totalEntries = length (cache s),
       info_cacheDuration = cacheDuration s,
       entries = map (\<lambda>(i, (k, e)).
                        \<lparr> info_key = k,
                          info_timestamp = timestamp e,
                          info_valid = isCacheValid s (nows i) (timestamp e),
                          info_simulated = simulated (data e) \<rparr>)
                     (enumerate 0 (cache s)) \<rparr>"

definition clearCache :: "scraper \<Rightarrow> scraper" where
  "clearCache s = s\<lparr>cache := []\<rparr>"

text \<open>\<^verbatim>\<open>_calculateMinutesAway\<close>: \<open>now\<close> is read once, the date that \<^verbatim>\<open>setHours\<close> adjusts is
  read again for every train (\<open>nows i\<close>), and the quotient is rounded, halves upwards.\<close>

definition roundDiv :: "int \<Rightarrow> int \<Rightarrow> int" where
  "roundDiv a b = (2 * a + b) div (2 * b)"

definition minutesAwayOf :: "int \<Rightarrow> int \<Rightarrow> int \<Rightarrow> string \<Rightarrow> number" where
  "minutesAwayOf tz now base timeString =
     (case splitOn (\<lambda>c. c = CHR '':'') timeString of
        h # m # rest \<Rightarrow>
          (case (Number_digits h, Number_digits m) of
             (Some hours, Some minutes) \<Rightarrow>
               (let trainDate = rollOver now (setHours tz base hours minutes)
                in Num (max 0 (roundDiv (trainDate - now) 60000)))
           | _ \<Rightarrow> NaN)
      | _ \<Rightarrow> NaN)"

definition calculateMinutesAway :: "int \<Rightarrow> int \<Rightarrow> (nat \<Rightarrow> int) \<Rightarrow> train list \<Rightarrow> train list" where
  "calculateMinutesAway tz now nows trainTimes =
     map (\<lambda>(i, t). t\<lparr>minutesAway := minutesAwayOf tz now (nows i) (time t)\<rparr>)
         (enumerate 0 trainTimes)"

subsection \<open>Sample configurations and worlds\<close>

text \<open>The constructor called with no option in an environment that sets no variable.\<close>

definition defaultOptions :: options where
  "defaultOptions =
     \<lparr> opt_cacheDuration = None, opt_useBrowser = None,
       opt_browserTimeout = None, opt_browserType = None \<rparr>"

definition emptyEnvironment :: environment where
  "emptyEnvironment =
     \<lparr> env_cacheDuration = None, env_useBrowser = False, env_browserTimeout = None \<rparr>"

text \<open>The constructor called with \<^verbatim>\<open>{ useBrowser: true }\<close>, as the conversation handler
  does.\<close>

definition browserOptions :: options where
  "browserOptions = defaultOptions\<lparr>opt_useBrowser := Some True\<rparr>"

text \<open>One formatter with the options of the source: two digits each, hours from 00 to 23.\<close>

definition twoDigits :: "nat \<Rightarrow> string" where
  "twoDigits n = [char_of (48 + n div 10), char_of (48 + n mod 10)]"

definition formatTime :: "int \<Rightarrow> int \<Rightarrow> string" where
  "formatTime tz t =
     (let m = nat (((t + tz) mod 86400000) div 60000)
      in twoDigits (m div 60) @ '':'' @ twoDigits (m mod 60))"

text \<open>A world in which every browser operation succeeds and the scan of the page meets
  the given captures. The clock starts at 2023-11-14T22:13:20Z, which is 06:13:20 in
  Manila (UTC+8).\<close>

definition liveWorld :: "candidate list \<Rightarrow> world" where
  "liveWorld cands =
     \<lparr> w_launch = Inr 1, w_newContext = Inr (), w_newPage = Inr (), w_goto = Inr (),
       w_settle_loaded = Inr (), w_selectTrainLine = Inr True, w_settle_line = Inr (),
       w_performStationSearch = Inr True, w_settle_search = Inr (), w_settle_extract = Inr (),
       w_evaluate = Inr cands, w_page_close = Inr (), w_context_close = Inr (),
       w_browser_close = Inr (),
       w_now_check = 1700000000000, w_now_simulate = 1700000000005,
       w_now_put = 1700000000006, w_now_extracted = 1700000030000,
       w_now_calc = (\<lambda>i. 1700000030001), w_now_updated = 1700000030002,
       w_tzOffset = 28800000,
       w_toLocaleTimeString = formatTime 28800000 \<rparr>"

text \<open>The same world with a browser that cannot be launched.\<close>

definition offlineWorld :: world where
  "offlineWorld = (liveWorld [])\<lparr>w_launch := Inl LaunchFailure\<rparr>"

text \<open>A capture with no status, direction or minutes around it.\<close>

definition plainCapture :: "string \<Rightarrow> candidate" where
  "plainCapture tok =
     \<lparr> cleanTime = tok, elemText = tok, surroundingText = tok,
       selector = ''div, span, p, li, td, article, section'', minutesMatch = None \<rparr>"

subsection \<open>Station names that differ in case or in surrounding blanks\<close>

text \<open>Two inputs differ only in letter case, in the words of the specification, when
  they have the same length and at every position the same character or the two cases of
  one letter. It is written from the specification's words, independently of
  \<open>toLowerCase\<close>.\<close>

definition isUpperCase :: "char \<Rightarrow> bool" where
  "isUpperCase c =
     (let n = (of_char c :: nat)
      in (65 \<le> n \<and> n \<le> 90) \<or> (192 \<le> n \<and> n \<le> 222 \<and> n \<noteq> 215))"

definition spec_caseVariants :: "char \<Rightarrow> char \<Rightarrow> bool" where
  "spec_caseVariants a b =
     (a = b \<or> (isUpperCase a \<and> (of_char b :: nat) = of_char a + 32)
            \<or> (isUpperCase b \<and> (of_char a :: nat) = of_char b + 32))"

definition spec_differOnlyInCase :: "string \<Rightarrow> string \<Rightarrow> bool" where
  "spec_differOnlyInCase a b = list_all2 spec_caseVariants a b"

text \<open>Two inputs differ only in leading or trailing whitespace, and in letter case, when
  they are related as above after the blanks at both ends are removed.\<close>

definition spec_trim :: "string \<Rightarrow> string" where
  "spec_trim s = rev (dropWhile isWhiteSpace (rev (dropWhile isWhiteSpace s)))"

definition spec_sameStation :: "string \<Rightarrow> string \<Rightarrow> bool" where
  "spec_sameStation a b = spec_differOnlyInCase (spec_trim a) (spec_trim b)"

subsection \<open>Time strings written from numbers\<close>

text \<open>The tokens the time patterns capture are one or two digits, a colon or a dot, and
  two digits. \<open>oneDigit\<close> and \<open>twoDigits\<close> write a number below 10 or below 100 in that
  form.\<close>

definition oneDigit :: "nat \<Rightarrow> string" where
  "oneDigit n = [char_of (48 + n)]"

text \<open>A well-formed time string for the hour \<open>hh\<close> and the minute \<open>mm\<close>: \<^verbatim>\<open>HH:MM\<close>, or
  \<^verbatim>\<open>H:MM\<close> for an hour below ten.\<close>

definition spec_wellFormedTime :: "string \<Rightarrow> nat \<Rightarrow> nat \<Rightarrow> bool" where
  "spec_wellFormedTime tok hh mm =
     (hh \<le> 23 \<and> mm \<le> 59
      \<and> (tok = twoDigits hh @ '':'' @ twoDigits mm
         \<or> (hh < 10 \<and> tok = oneDigit hh @ '':'' @ twoDigits mm)))"

subsection \<open>Well-formed records\<close>

text \<open>What the specification asks of every record returned: \<^verbatim>\<open>estimatedTravelTime\<close> is
  there and is not negative (\<^verbatim>\<open>nextTrains\<close> is an array by the type of the field).\<close>

definition spec_wellFormedRecord :: "schedule \<Rightarrow> bool" where
  "spec_wellFormedRecord r = (case estimatedTravelTime r of None \<Rightarrow> False | Some n \<Rightarrow> 0 \<le> n)"

text \<open>The invariant of the cache: every stored record is well-formed.\<close>

definition cacheOk :: "scraper \<Rightarrow> bool" where
  "cacheOk s = list_all (\<lambda>(k, e). spec_wellFormedRecord (data e)) (cache s)"

subsection \<open>Failures that end an attempt\<close>

text \<open>The worlds in which a failure leaves the attempt of a scraper with the toggle on
  without a record: the launch fails (no browser being held), or the creation of the
  context or of the page, the navigation or a settle wait throws, or the station search
  throws or answers \<^verbatim>\<open>false\<close>, or the evaluation in the page throws, or the scan accepts
  no token. The wait after the line selection is made only when a line was selected.\<close>

definition attemptEnds :: "world \<Rightarrow> scraper \<Rightarrow> bool" where
  "attemptEnds w s =
     ((browser s = None \<and> isl (w_launch w))
      \<or> isl (w_newContext w) \<or> isl (w_newPage w) \<or> isl (w_goto w)
      \<or> isl (w_settle_loaded w)
      \<or> (w_selectTrainLine w = Inr True \<and> isl (w_settle_line w))
      \<or> isl (w_performStationSearch w) \<or> w_performStationSearch w = Inr False
      \<or> isl (w_settle_search w) \<or> isl (w_settle_extract w)
      \<or> isl (w_evaluate w)
      \<or> (case w_evaluate w of Inl e \<Rightarrow> False | Inr cands \<Rightarrow> scanPage cands = []))"

section \<open>Properties\<close>

subsection \<open>Simulated data\<close>

lemma simulated_minutesAway:
  "map minutesAway (nextTrains (simulateTrainData fmt now orig dest ln)) =
     [Num 3, Num 8, Num 15, Num 23, Num 33]"
proof -
  have "[0 ..< 5] = [0, Suc 0, 2, 3, 4::nat]"
    by (simp add: upt_rec)
  then show ?thesis
    by (simp add: simulateTrainData_def simulatedTrain_def intervals_def)
qed

lemma simulated_status:
  "map status (nextTrains (simulateTrainData fmt now orig dest ln)) =
     [OnTime, OnTime, OnTime, Delayed, Delayed]"
proof -
  have "[0 ..< 5] = [0, Suc 0, 2, 3, 4::nat]"
    by (simp add: upt_rec)
  then show ?thesis
    by (simp add: simulateTrainData_def simulatedTrain_def intervals_def)
qed

lemma simulated_fields:
  "line (simulateTrainData fmt now orig dest ln) = ln"
  "origin (simulateTrainData fmt now orig dest ln) = orig"
  "destination (simulateTrainData fmt now orig dest ln) = dest"
  "simulated (simulateTrainData fmt now orig dest ln)"
  "length (nextTrains (simulateTrainData fmt now orig dest ln)) = 5"
  "estimatedTravelTime (simulateTrainData fmt now orig dest ln) =
     Some (3 * (\<bar>js_rem (hashString orig) 10\<bar> + 2))"
  by (simp_all add: simulateTrainData_def)

lemma js_rem_10_bounds: "0 \<le> \<bar>js_rem a 10\<bar> \<and> \<bar>js_rem a 10\<bar> \<le> 9"
proof -
  have "\<bar>js_rem a 10\<bar> = \<bar>sgn a\<bar> * (\<bar>a\<bar> mod 10)"
    by (simp add: js_rem_def abs_mult)
  moreover have "0 \<le> \<bar>a\<bar> mod 10" "\<bar>a\<bar> mod 10 \<le> 9"
    by simp_all
  moreover have "\<bar>sgn a\<bar> = 0 \<or> \<bar>sgn a\<bar> = 1"
    by (cases "a = 0") (simp_all add: abs_sgn_eq)
  ultimately show ?thesis
    by auto
qed

text \<open>Claim C9. The simulated record is a function of its arguments, the formatter and
  the instant, and its shape does not depend even on these: the minutes away of its five
  trains are the running sums 3, 8, 15, 23, 33 of the gaps, with the same statuses, so
  any two runs agree on count and spacing, and the estimated travel time is a function of
  the origin alone.\<close>

theorem simulation_deterministic:
  "map minutesAway (nextTrains (simulateTrainData fmt now orig dest ln)) =
     [Num 3, Num 8, Num 15, Num 23, Num 33]
   \<and> map status (nextTrains (simulateTrainData fmt now orig dest ln)) =
     [OnTime, OnTime, OnTime, Delayed, Delayed]
   \<and> map minutesAway (nextTrains (simulateTrainData fmt now orig dest ln)) =
     map minutesAway (nextTrains (simulateTrainData fmt' now' orig' dest' ln'))
   \<and> length (nextTrains (simulateTrainData fmt now orig dest ln)) =
     length (nextTrains (simulateTrainData fmt' now' orig' dest' ln'))
   \<and> estimatedTravelTime (simulateTrainData fmt now orig dest ln) =
     estimatedTravelTime (simulateTrainData fmt' now' orig dest' ln')
   \<and> estimatedTravelTime (simulateTrainData fmt now orig dest ln) =
     Some (3 * (\<bar>js_rem (hashString orig) 10\<bar> + 2))"
  by (simp add: simulated_minutesAway simulated_status simulated_fields)

subsection \<open>The request without a browser\<close>

lemma attempt_disabled:
  "\<not> useBrowserScraper s \<Longrightarrow> attemptDataExtraction w s orig dest ln = (Inr None, s)"
  by (simp add: attemptDataExtraction_def)

lemma attempt_resolves:
  "\<exists>r s1. attemptDataExtraction w s orig dest ln = (Inr r, s1)"
  by (cases "initBrowser w s") (simp add: attemptDataExtraction_def Let_def)

lemma scrapeFresh_nothing:
  assumes "attemptDataExtraction w s orig dest ln = (resp, s1)"
    and "tryCatch resp None = None"
  shows "scrapeFresh w s orig dest ln =
     (Inr (simulateTrainData (w_toLocaleTimeString w) (w_now_simulate w) orig dest ln),
      storeRecord w (getCacheKey orig dest)
        (simulateTrainData (w_toLocaleTimeString w) (w_now_simulate w) orig dest ln) s1)"
  using assms by (simp add: scrapeFresh_def Let_def)

lemma scrape_miss:
  "cachedRecord s (w_now_check w) (getCacheKey orig dest) = None \<Longrightarrow>
   scrapeTrainSchedule w s orig dest ln = scrapeFresh w s orig dest ln"
  by (simp add: scrapeTrainSchedule_def)

lemma cachedRecord_empty: "cache s = [] \<Longrightarrow> cachedRecord s now k = None"
  by (simp add: cachedRecord_def)

text \<open>Claim C3. With the live-browser toggle off and an empty cache, the request for
  Ayala to Buendia on MRT-3 returns a record with these three fields, marked simulated,
  with five trains; and with the toggle off every request that misses the cache returns
  the simulated record.\<close>

theorem disabled_toggle_simulated:
  assumes off: "\<not> useBrowserScraper s"
  shows "(cache s = [] \<longrightarrow>
            (\<exists>r. fst (scrapeTrainSchedule w s ''Ayala'' ''Buendia'' ''MRT-3'') = Inr r
                 \<and> line r = ''MRT-3'' \<and> origin r = ''Ayala'' \<and> destination r = ''Buendia''
                 \<and> simulated r \<and> length (nextTrains r) = 5))
       \<and> (cachedRecord s (w_now_check w) (getCacheKey orig dest) = None \<longrightarrow>
            (\<exists>r. fst (scrapeTrainSchedule w s orig dest ln) = Inr r \<and> simulated r
                 \<and> r = simulateTrainData (w_toLocaleTimeString w) (w_now_simulate w) orig dest ln))"
proof -
  have miss: "fst (scrapeTrainSchedule w s a b c) =
      Inr (simulateTrainData (w_toLocaleTimeString w) (w_now_simulate w) a b c)"
    if "cachedRecord s (w_now_check w) (getCacheKey a b) = None" for a b c
    using scrapeFresh_nothing [OF attempt_disabled [OF off], of w a b c] scrape_miss [OF that, of c]
    by (simp add: tryCatch_def)
  show ?thesis
  proof (intro conjI impI)
    assume "cache s = []"
    then have "cachedRecord s (w_now_check w) (getCacheKey ''Ayala'' ''Buendia'') = None"
      by (rule cachedRecord_empty)
    from miss [OF this, of "''MRT-3''"]
    show "\<exists>r. fst (scrapeTrainSchedule w s ''Ayala'' ''Buendia'' ''MRT-3'') = Inr r
            \<and> line r = ''MRT-3'' \<and> origin r = ''Ayala'' \<and> destination r = ''Buendia''
            \<and> simulated r \<and> length (nextTrains r) = 5"
      by (simp add: simulated_fields)
  next
    assume "cachedRecord s (w_now_check w) (getCacheKey orig dest) = None"
    from miss [OF this, of ln]
    show "\<exists>r. fst (scrapeTrainSchedule w s orig dest ln) = Inr r \<and> simulated r
            \<and> r = simulateTrainData (w_toLocaleTimeString w) (w_now_simulate w) orig dest ln"
      by (simp add: simulated_fields)
  qed
qed

theorem disabled_toggle_simulated_witness:
  "\<not> useBrowserScraper (constructor defaultOptions emptyEnvironment)
   \<and> cache (constructor defaultOptions emptyEnvironment) = []
   \<and> (\<exists>r. fst (scrapeTrainSchedule offlineWorld (constructor defaultOptions emptyEnvironment)
                  ''Ayala'' ''Buendia'' ''MRT-3'') = Inr r
          \<and> line r = ''MRT-3'' \<and> origin r = ''Ayala'' \<and> destination r = ''Buendia''
          \<and> simulated r \<and> length (nextTrains r) = 5)"
proof -
  have off: "\<not> useBrowserScraper (constructor defaultOptions emptyEnvironment)"
    by (simp add: constructor_def defaultOptions_def emptyEnvironment_def)
  have empty: "cache (constructor defaultOptions emptyEnvironment) = []"
    by (simp add: constructor_def)
  from disabled_toggle_simulated [OF off, of offlineWorld] empty off show ?thesis
    by blast
qed

subsection \<open>Cleanup\<close>

lemma closeBrowser_result:
  "closeBrowser w s = (Inr (), s\<lparr>browser := None\<rparr>)"
  by (cases "browser s") (simp_all add: closeBrowser_def)

lemma cleanup_result: "cleanup w s = (Inr (), s\<lparr>browser := None, cache := []\<rparr>)"
  by (simp add: cleanup_def closeBrowser_result)

text \<open>Claim C10. \<^verbatim>\<open>cleanup\<close> resolves and leaves an empty cache and no browser; after it
  every request, for any route and in any world, misses the cache and takes the fresh
  path; a second \<^verbatim>\<open>cleanup\<close> resolves and changes nothing.\<close>

theorem cleanup_empties:
  "\<exists>s'. cleanup w s = (Inr (), s')
      \<and> cache s' = [] \<and> browser s' = None
      \<and> (\<forall>w' orig dest ln. cachedRecord s' (w_now_check w') (getCacheKey orig dest) = None
            \<and> scrapeTrainSchedule w' s' orig dest ln = scrapeFresh w' s' orig dest ln)
      \<and> (\<forall>w'. cleanup w' s' = (Inr (), s'))"
  by (simp add: cleanup_result cachedRecord_def scrapeTrainSchedule_def)

subsection \<open>The cache\<close>

lemma map_of_Map_set: "map_of (Map_set k v ps) = (map_of ps)(k \<mapsto> v)"
  by (induction ps) (auto simp: fun_eq_iff)

lemma Map_set_index: "\<exists>i < length (Map_set k v ps). Map_set k v ps ! i = (k, v)"
proof (induction ps)
  case Nil
  then show ?case by simp
next
  case (Cons p ps)
  show ?case
  proof (cases "fst p = k")
    case True
    then show ?thesis by auto
  next
    case False
    from Cons obtain i where "i < length (Map_set k v ps)" "Map_set k v ps ! i = (k, v)"
      by blast
    with False have "Suc i < length (Map_set k v (p # ps)) \<and> Map_set k v (p # ps) ! Suc i = (k, v)"
      by simp
    then show ?thesis by blast
  qed
qed

text \<open>The map keeps one pair per key.\<close>

lemma distinct_Map_set: "distinct (map fst ps) \<Longrightarrow> distinct (map fst (Map_set k v ps))"
proof (induction ps)
  case Nil
  then show ?case by simp
next
  case (Cons p ps)
  have "fst ` set (Map_set k v ps) = insert k (fst ` set ps)" for ps :: "('a \<times> 'b) list"
    by (induction ps) auto
  with Cons show ?case by auto
qed

lemma cachedRecord_store:
  "cachedRecord (storeRecord w k r s) now k =
     (if now - w_now_put w < cacheDuration s * 1000 then Some r else None)"
  by (simp add: cachedRecord_def storeRecord_def map_of_Map_set isCacheValid_def)

lemma char_of_code: "(of_char b :: nat) = n \<Longrightarrow> char_of n = b"
  by auto

lemma toLowerCase_char_variants:
  "spec_caseVariants a b \<Longrightarrow> toLowerCase_char a = toLowerCase_char b"
  unfolding spec_caseVariants_def isUpperCase_def toLowerCase_char_def Let_def
  by (auto simp: char_of_code dest: char_of_code [symmetric])

lemma toLowerCase_variants:
  "spec_differOnlyInCase a b \<Longrightarrow> toLowerCase a = toLowerCase b"
  unfolding spec_differOnlyInCase_def toLowerCase_def
  by (induction a b rule: list_all2_induct) (simp_all add: toLowerCase_char_variants)


text \<open>Claim C5, as amended. Cache keys are normalised by lower-casing only: two
  (origin, destination) pairs that differ only in letter case have the same key, and a
  record stored under one is found under the other while it is valid.\<close>

theorem cache_key_ignores_case:
  assumes "spec_differOnlyInCase orig1 orig2" and "spec_differOnlyInCase dest1 dest2"
  shows "getCacheKey orig1 dest1 = getCacheKey orig2 dest2
       \<and> (now - w_now_put w < cacheDuration s * 1000 \<longrightarrow>
            cachedRecord (storeRecord w (getCacheKey orig1 dest1) r s) now (getCacheKey orig2 dest2)
              = Some r)"
proof -
  have "getCacheKey orig1 dest1 = getCacheKey orig2 dest2"
    using assms by (simp add: getCacheKey_def toLowerCase_variants)
  then show ?thesis
    by (simp add: cachedRecord_store)
qed

text \<open>Claim C5 as stated also identifies inputs that differ in leading or trailing
  whitespace. The key is not trimmed: a leading blank gives another key, and the record
  stored for Ayala is not found for the padded name.\<close>

theorem cache_key_not_trimmed:
  "spec_sameStation '' Ayala'' ''Ayala'' \<and> spec_sameStation ''Buendia'' ''Buendia''
   \<and> getCacheKey '' Ayala'' ''Buendia'' \<noteq> getCacheKey ''Ayala'' ''Buendia''
   \<and> cachedRecord
        (storeRecord offlineWorld (getCacheKey ''Ayala'' ''Buendia'')
           (simulateTrainData (formatTime 28800000) 1700000000005 ''Ayala'' ''Buendia'' ''MRT-3'')
           (constructor defaultOptions emptyEnvironment))
        1700000000006 (getCacheKey '' Ayala'' ''Buendia'') = None"
  by (simp add: spec_sameStation_def spec_trim_def spec_differOnlyInCase_def spec_caseVariants_def
      isWhiteSpace_def getCacheKey_def toLowerCase_def toLowerCase_char_def
      cachedRecord_def storeRecord_def constructor_def)

theorem cache_key_ignores_case_witness:
  "spec_differOnlyInCase ''AYALA'' ''ayala'' \<and> spec_differOnlyInCase ''Buendia'' ''buendia''
   \<and> getCacheKey ''AYALA'' ''Buendia'' = getCacheKey ''ayala'' ''buendia''
   \<and> cachedRecord
        (storeRecord offlineWorld (getCacheKey ''AYALA'' ''Buendia'')
           (simulateTrainData (formatTime 28800000) 1700000000005 ''AYALA'' ''Buendia'' ''MRT-3'')
           (constructor defaultOptions emptyEnvironment))
        1700000000006 (getCacheKey ''ayala'' ''buendia'')
      = Some (simulateTrainData (formatTime 28800000) 1700000000005 ''AYALA'' ''Buendia'' ''MRT-3'')"
proof -
  have a: "spec_differOnlyInCase ''AYALA'' ''ayala''"
    by (simp add: spec_differOnlyInCase_def spec_caseVariants_def isUpperCase_def)
  have b: "spec_differOnlyInCase ''Buendia'' ''buendia''"
    by (simp add: spec_differOnlyInCase_def spec_caseVariants_def isUpperCase_def)
  have c: "(1700000000006::int) - w_now_put offlineWorld
        < cacheDuration (constructor defaultOptions emptyEnvironment) * 1000"
    by (simp add: offlineWorld_def liveWorld_def constructor_def defaultOptions_def
        emptyEnvironment_def orElse_def)
  from cache_key_ignores_case [OF a b, of 1700000000006 offlineWorld
      "constructor defaultOptions emptyEnvironment"
      "simulateTrainData (formatTime 28800000) 1700000000005 ''AYALA'' ''Buendia'' ''MRT-3''"]
    a b c
  show ?thesis by blast
qed


lemma storeRecord_fields:
  "cacheDuration (storeRecord w k r s) = cacheDuration s"
  "cache (storeRecord w k r s) = Map_set k \<lparr> data = r, timestamp = w_now_put w \<rparr> (cache s)"
  "browser (storeRecord w k r s) = browser s"
  "useBrowserScraper (storeRecord w k r s) = useBrowserScraper s"
  by (simp_all add: storeRecord_def)

lemma scrape_hit:
  "cachedRecord s (w_now_check w) (getCacheKey orig dest) = Some r \<Longrightarrow>
   scrapeTrainSchedule w s orig dest ln = (Inr r, s)"
  by (simp add: scrapeTrainSchedule_def)

lemma getCacheInfo_entry:
  assumes "i < length (cache s)" and "cache s ! i = (k, e)"
  shows "entries (getCacheInfo s nows) ! i =
     \<lparr> info_key = k, info_timestamp = timestamp e,
       info_valid = isCacheValid s (nows i) (timestamp e),
       info_simulated = simulated (data e) \<rparr>"
  using assms by (simp add: getCacheInfo_def nth_enumerate_eq)

text \<open>Claim C6. After a record is stored under a key, a lookup of that key returns this
  very record exactly while \<open>now - timestamp < cacheDuration * 1000\<close> (so at once, for a
  positive duration), and the request then returns it and leaves the scraper as it is;
  once \<open>cacheDuration\<close> seconds have passed the lookup misses and the request takes the
  fresh path, while the entry is still in the map and \<^verbatim>\<open>getCacheInfo\<close> lists it, with its
  timestamp, as not valid.\<close>

theorem cache_put_get:
  fixes s :: scraper and w :: world and r :: schedule
  assumes put: "s' = storeRecord w (getCacheKey orig dest) r s"
  shows "(\<forall>now. cachedRecord s' now (getCacheKey orig dest) =
             (if now - w_now_put w < cacheDuration s * 1000 then Some r else None))
       \<and> (0 < cacheDuration s \<longrightarrow> cachedRecord s' (w_now_put w) (getCacheKey orig dest) = Some r)
       \<and> (\<forall>w2 ln. w_now_check w2 - w_now_put w < cacheDuration s * 1000 \<longrightarrow>
             scrapeTrainSchedule w2 s' orig dest ln = (Inr r, s'))
       \<and> (\<forall>w2 ln. cacheDuration s * 1000 \<le> w_now_check w2 - w_now_put w \<longrightarrow>
             scrapeTrainSchedule w2 s' orig dest ln = scrapeFresh w2 s' orig dest ln
             \<and> map_of (cache s') (getCacheKey orig dest) = Some \<lparr> data = r, timestamp = w_now_put w \<rparr>)
       \<and> (\<forall>nows. totalEntries (getCacheInfo s' nows) = length (cache s')
             \<and> (\<exists>i < length (cache s').
                   info_key (entries (getCacheInfo s' nows) ! i) = getCacheKey orig dest
                   \<and> info_timestamp (entries (getCacheInfo s' nows) ! i) = w_now_put w
                   \<and> info_valid (entries (getCacheInfo s' nows) ! i) =
                       (nows i - w_now_put w < cacheDuration s * 1000)))"
proof (intro conjI allI impI)
  fix now
  show "cachedRecord s' now (getCacheKey orig dest) =
          (if now - w_now_put w < cacheDuration s * 1000 then Some r else None)"
    by (simp add: put cachedRecord_store)
next
  assume "0 < cacheDuration s"
  then show "cachedRecord s' (w_now_put w) (getCacheKey orig dest) = Some r"
    by (simp add: put cachedRecord_store)
next
  fix w2 :: world and ln :: string
  assume "w_now_check w2 - w_now_put w < cacheDuration s * 1000"
  then have "cachedRecord s' (w_now_check w2) (getCacheKey orig dest) = Some r"
    by (simp add: put cachedRecord_store)
  then show "scrapeTrainSchedule w2 s' orig dest ln = (Inr r, s')"
    by (rule scrape_hit)
next
  fix w2 :: world and ln :: string
  assume "cacheDuration s * 1000 \<le> w_now_check w2 - w_now_put w"
  then have "cachedRecord s' (w_now_check w2) (getCacheKey orig dest) = None"
    by (simp add: put cachedRecord_store)
  then show "scrapeTrainSchedule w2 s' orig dest ln = scrapeFresh w2 s' orig dest ln"
    by (rule scrape_miss)
next
  show "map_of (cache s') (getCacheKey orig dest) = Some \<lparr> data = r, timestamp = w_now_put w \<rparr>"
    by (simp add: put storeRecord_fields map_of_Map_set)
next
  fix nows
  show "totalEntries (getCacheInfo s' nows) = length (cache s')"
    by (simp add: getCacheInfo_def)
next
  fix nows
  obtain i where i: "i < length (cache s')"
      "cache s' ! i = (getCacheKey orig dest, \<lparr> data = r, timestamp = w_now_put w \<rparr>)"
    using Map_set_index [of "getCacheKey orig dest" "\<lparr> data = r, timestamp = w_now_put w \<rparr>" "cache s"]
    by (auto simp: put storeRecord_fields)
  have "entries (getCacheInfo s' nows) ! i =
     \<lparr> info_key = getCacheKey orig dest, info_timestamp = w_now_put w,
       info_valid = isCacheValid s' (nows i) (w_now_put w),
       info_simulated = simulated r \<rparr>"
    using getCacheInfo_entry [OF i, of nows] by simp
  then have "info_key (entries (getCacheInfo s' nows) ! i) = getCacheKey orig dest
        \<and> info_timestamp (entries (getCacheInfo s' nows) ! i) = w_now_put w
        \<and> info_valid (entries (getCacheInfo s' nows) ! i) =
            (nows i - w_now_put w < cacheDuration s * 1000)"
    by (simp add: isCacheValid_def put storeRecord_fields)
  with i(1) show "\<exists>i < length (cache s').
       info_key (entries (getCacheInfo s' nows) ! i) = getCacheKey orig dest
       \<and> info_timestamp (entries (getCacheInfo s' nows) ! i) = w_now_put w
       \<and> info_valid (entries (getCacheInfo s' nows) ! i) =
           (nows i - w_now_put w < cacheDuration s * 1000)"
    by blast
qed


theorem cache_put_get_witness:
  "0 < cacheDuration (constructor defaultOptions emptyEnvironment)
   \<and> cachedRecord
        (storeRecord offlineWorld (getCacheKey ''Ayala'' ''Buendia'')
           (simulateTrainData (formatTime 28800000) 1700000000005 ''Ayala'' ''Buendia'' ''MRT-3'')
           (constructor defaultOptions emptyEnvironment))
        (w_now_put offlineWorld) (getCacheKey ''Ayala'' ''Buendia'')
      = Some (simulateTrainData (formatTime 28800000) 1700000000005 ''Ayala'' ''Buendia'' ''MRT-3'')
   \<and> scrapeTrainSchedule (offlineWorld\<lparr>w_now_check := 1700000300005\<rparr>)
        (storeRecord offlineWorld (getCacheKey ''Ayala'' ''Buendia'')
           (simulateTrainData (formatTime 28800000) 1700000000005 ''Ayala'' ''Buendia'' ''MRT-3'')
           (constructor defaultOptions emptyEnvironment))
        ''Ayala'' ''Buendia'' ''MRT-3''
      = (Inr (simulateTrainData (formatTime 28800000) 1700000000005 ''Ayala'' ''Buendia'' ''MRT-3''),
         storeRecord offlineWorld (getCacheKey ''Ayala'' ''Buendia'')
           (simulateTrainData (formatTime 28800000) 1700000000005 ''Ayala'' ''Buendia'' ''MRT-3'')
           (constructor defaultOptions emptyEnvironment))
   \<and> scrapeTrainSchedule (offlineWorld\<lparr>w_now_check := 1700000300006\<rparr>)
        (storeRecord offlineWorld (getCacheKey ''Ayala'' ''Buendia'')
           (simulateTrainData (formatTime 28800000) 1700000000005 ''Ayala'' ''Buendia'' ''MRT-3'')
           (constructor defaultOptions emptyEnvironment))
        ''Ayala'' ''Buendia'' ''MRT-3''
      = scrapeFresh (offlineWorld\<lparr>w_now_check := 1700000300006\<rparr>)
        (storeRecord offlineWorld (getCacheKey ''Ayala'' ''Buendia'')
           (simulateTrainData (formatTime 28800000) 1700000000005 ''Ayala'' ''Buendia'' ''MRT-3'')
           (constructor defaultOptions emptyEnvironment))
        ''Ayala'' ''Buendia'' ''MRT-3''"
proof -
  have dur: "cacheDuration (constructor defaultOptions emptyEnvironment) = 300"
    by (simp add: constructor_def defaultOptions_def emptyEnvironment_def orElse_def)
  have put: "w_now_put offlineWorld = 1700000000006"
    by (simp add: offlineWorld_def liveWorld_def)
  have early: "w_now_check (offlineWorld\<lparr>w_now_check := 1700000300005\<rparr>) - w_now_put offlineWorld
      < cacheDuration (constructor defaultOptions emptyEnvironment) * 1000"
    by (simp add: dur put)
  have late: "cacheDuration (constructor defaultOptions emptyEnvironment) * 1000
      \<le> w_now_check (offlineWorld\<lparr>w_now_check := 1700000300006\<rparr>) - w_now_put offlineWorld"
    by (simp add: dur put)
  have pos: "0 < cacheDuration (constructor defaultOptions emptyEnvironment)"
    by (simp add: dur)
  from cache_put_get [OF refl, where w = offlineWorld
      and s = "constructor defaultOptions emptyEnvironment" and orig = "''Ayala''"
      and dest = "''Buendia''"
      and r = "simulateTrainData (formatTime 28800000) 1700000000005 ''Ayala'' ''Buendia'' ''MRT-3''"]
    early late pos
  show ?thesis by blast
qed

subsection \<open>Reading digits\<close>

lemma isDigit_facts:
  assumes "isDigit c"
  shows "\<not> isWhiteSpace c" "\<not> isSeparator c" "c \<noteq> CHR ''-''" "c \<noteq> CHR ''+''"
    "c \<noteq> CHR ''x''" "c \<noteq> CHR ''X''" "isRadixDigit 10 c"
    "digitValue c = Some (int (of_char c - 48))"
  using assms
  by (auto simp: isDigit_def isWhiteSpace_def isSeparator_def isRadixDigit_def digitValue_def Let_def)

lemma digitsValue_nonneg_aux:
  "list_all isDigit ds \<Longrightarrow> 0 \<le> a \<Longrightarrow>
   0 \<le> foldl (\<lambda>a c. a * 10 + the (digitValue c)) a ds"
proof (induction ds arbitrary: a)
  case Nil
  then show ?case by simp
next
  case (Cons c ds)
  from Cons.prems have "isDigit c" by simp
  then have "the (digitValue c) = int (of_char c - 48)"
    by (simp add: isDigit_facts)
  with Cons.prems have "0 \<le> a * 10 + the (digitValue c)" by simp
  with Cons show ?case by simp
qed

lemma digitsValue_nonneg: "list_all isDigit ds \<Longrightarrow> 0 \<le> digitsValue 10 ds"
  unfolding digitsValue_def by (rule digitsValue_nonneg_aux) simp_all

lemma takeWhile_digits: "list_all isDigit ds \<Longrightarrow> takeWhile (isRadixDigit 10) ds = ds"
  by (induction ds) (simp_all add: isDigit_facts)

lemma parseInt_digits:
  assumes "ds \<noteq> []" and "list_all isDigit ds"
  shows "parseInt ds = Some (digitsValue 10 ds)"
proof -
  from assms obtain c cs where ds: "ds = c # cs" and c: "isDigit c" and cs: "list_all isDigit cs"
    by (cases ds) auto
  have s1: "dropWhile isWhiteSpace ds = ds"
    by (simp add: ds isDigit_facts [OF c])
  have nohex: "\<not> (case ds of a # b # r \<Rightarrow> a = CHR ''0'' \<and> (b = CHR ''x'' \<or> b = CHR ''X'') | _ \<Rightarrow> False)"
    using cs by (cases cs) (auto simp: ds isDigit_facts)
  show ?thesis
    unfolding parseInt_def Let_def s1
    using nohex assms
    by (simp add: ds isDigit_facts [OF c] takeWhile_digits [OF cs])
qed

lemma Number_digits_value:
  "ds \<noteq> [] \<Longrightarrow> list_all isDigit ds \<Longrightarrow> Number_digits ds = Some (digitsValue 10 ds)"
  by (simp add: Number_digits_def)

lemma isDigit_char_of: "d < 10 \<Longrightarrow> isDigit (char_of (48 + d :: nat))"
  by (simp add: isDigit_def)

lemma digits_twoDigits:
  assumes "n < 100"
  shows "list_all isDigit (twoDigits n)" "twoDigits n \<noteq> []" "digitsValue 10 (twoDigits n) = int n"
proof -
  from assms have d: "n div 10 < 10" "n mod 10 < 10" by simp_all
  show "list_all isDigit (twoDigits n)"
    using d by (simp add: twoDigits_def isDigit_char_of)
  show "twoDigits n \<noteq> []"
    by (simp add: twoDigits_def)
  have "digitValue (char_of (48 + k)) = Some (int k)" if "k < 10" for k :: nat
    using that isDigit_facts(8) [OF isDigit_char_of [OF that]] by simp
  with d have "digitsValue 10 (twoDigits n) = int (n div 10) * 10 + int (n mod 10)"
    by (simp add: digitsValue_def twoDigits_def)
  also have "\<dots> = int n"
    by presburger
  finally show "digitsValue 10 (twoDigits n) = int n" .
qed

lemma digits_oneDigit:
  assumes "n < 10"
  shows "list_all isDigit (oneDigit n)" "oneDigit n \<noteq> []" "digitsValue 10 (oneDigit n) = int n"
proof -
  show "list_all isDigit (oneDigit n)"
    using assms by (simp add: oneDigit_def isDigit_char_of)
  show "oneDigit n \<noteq> []"
    by (simp add: oneDigit_def)
  have "digitValue (char_of (48 + n)) = Some (int n)"
    using isDigit_facts(8) [OF isDigit_char_of [OF assms]] assms by simp
  then show "digitsValue 10 (oneDigit n) = int n"
    by (simp add: digitsValue_def oneDigit_def)
qed

lemma splitOn_none: "list_all (\<lambda>c. \<not> P c) xs \<Longrightarrow> splitOn P xs = [xs]"
  by (induction xs) simp_all

lemma splitOn_one:
  "list_all (\<lambda>c. \<not> P c) xs \<Longrightarrow> P sep \<Longrightarrow> list_all (\<lambda>c. \<not> P c) ys \<Longrightarrow>
   splitOn P (xs @ sep # ys) = [xs, ys]"
  by (induction xs) (simp_all add: splitOn_none)

lemma digits_no_separator: "list_all isDigit ds \<Longrightarrow> list_all (\<lambda>c. \<not> isSeparator c) ds"
  by (induction ds) (simp_all add: isDigit_facts)

lemma digits_no_colon: "list_all isDigit ds \<Longrightarrow> list_all (\<lambda>c. \<not> c = CHR '':'') ds"
  by (induction ds) (auto simp: isDigit_def)

lemma validTimeToken_digits:
  assumes "h \<noteq> []" "list_all isDigit h" "m \<noteq> []" "list_all isDigit m" "isSeparator sep"
  shows "validTimeToken (h @ sep # m) \<longleftrightarrow> digitsValue 10 h \<le> 23 \<and> digitsValue 10 m \<le> 59"
proof -
  have "splitOn isSeparator (h @ sep # m) = [h, m]"
    using assms by (simp add: splitOn_one digits_no_separator)
  then show ?thesis
    using assms digitsValue_nonneg [of h] digitsValue_nonneg [of m]
    by (simp add: validTimeToken_def parseInt_digits)
qed


subsection \<open>The validator\<close>

text \<open>Claim C7. The validator accepts \<^verbatim>\<open>23:59\<close> and \<^verbatim>\<open>0:00\<close> and rejects \<^verbatim>\<open>24:00\<close> and
  \<^verbatim>\<open>12:60\<close>; and of the tokens of the captured form, with a one-digit or two-digit hour,
  two minute digits and a colon or a dot between, it accepts exactly those whose hour is
  at most 23 and whose minute is at most 59.\<close>

theorem validator_bounds:
  "validTimeToken ''23:59'' \<and> validTimeToken ''0:00''
   \<and> \<not> validTimeToken ''24:00'' \<and> \<not> validTimeToken ''12:60''
   \<and> (\<forall>hh mm sep. hh < 100 \<and> mm < 100 \<and> isSeparator sep \<longrightarrow>
         (validTimeToken (twoDigits hh @ sep # twoDigits mm) \<longleftrightarrow> hh \<le> 23 \<and> mm \<le> 59))
   \<and> (\<forall>hh mm sep. hh < 10 \<and> mm < 100 \<and> isSeparator sep \<longrightarrow>
         (validTimeToken (oneDigit hh @ sep # twoDigits mm) \<longleftrightarrow> mm \<le> 59))
   \<and> (\<forall>tok. validTimeToken tok \<longrightarrow> length (splitOn isSeparator tok) = 2)"
proof (intro conjI allI impI)
  have two: "validTimeToken (twoDigits hh @ sep # twoDigits mm) \<longleftrightarrow> hh \<le> 23 \<and> mm \<le> 59"
    if "hh < 100" "mm < 100" "isSeparator sep" for hh mm sep
    using that validTimeToken_digits [of "twoDigits hh" "twoDigits mm" sep]
    by (simp add: digits_twoDigits)
  have one: "validTimeToken (oneDigit hh @ sep # twoDigits mm) \<longleftrightarrow> mm \<le> 59"
    if "hh < 10" "mm < 100" "isSeparator sep" for hh mm sep
    using that validTimeToken_digits [of "oneDigit hh" "twoDigits mm" sep]
    by (simp add: digits_twoDigits digits_oneDigit)
  show "validTimeToken ''23:59''"
    by code_simp
  show "validTimeToken ''0:00''"
    by code_simp
  show "\<not> validTimeToken ''24:00''"
    by code_simp
  show "\<not> validTimeToken ''12:60''"
    by code_simp
  show "validTimeToken (twoDigits hh @ sep # twoDigits mm) \<longleftrightarrow> hh \<le> 23 \<and> mm \<le> 59"
    if "hh < 100 \<and> mm < 100 \<and> isSeparator sep" for hh mm sep
    using that two by blast
  show "validTimeToken (oneDigit hh @ sep # twoDigits mm) \<longleftrightarrow> mm \<le> 59"
    if "hh < 10 \<and> mm < 100 \<and> isSeparator sep" for hh mm sep
    using that one by blast
  show "length (splitOn isSeparator tok) = 2" if "validTimeToken tok" for tok
    using that by (simp add: validTimeToken_def Let_def split: if_splits)
qed

theorem validator_bounds_witness:
  "(7::nat) < 100 \<and> (59::nat) < 100 \<and> isSeparator CHR ''.''
   \<and> validTimeToken ''07.59'' \<and> validTimeToken ''7.59''
   \<and> (99::nat) < 100 \<and> \<not> validTimeToken ''99.59''
   \<and> length (splitOn isSeparator ''07.59'') = 2"
proof -
  have sep: "isSeparator CHR ''.''"
    by (simp add: isSeparator_def)
  have toks: "twoDigits 7 @ CHR ''.'' # twoDigits 59 = ''07.59''"
    "oneDigit 7 @ CHR ''.'' # twoDigits 59 = ''7.59''"
    "twoDigits 99 @ CHR ''.'' # twoDigits 59 = ''99.59''"
    by code_simp+
  from validator_bounds sep
  have "validTimeToken (twoDigits 7 @ CHR ''.'' # twoDigits 59)"
    and "validTimeToken (oneDigit 7 @ CHR ''.'' # twoDigits 59)"
    and "\<not> validTimeToken (twoDigits 99 @ CHR ''.'' # twoDigits 59)"
    by simp_all
  moreover from validator_bounds this(1)
  have "length (splitOn isSeparator (twoDigits 7 @ CHR ''.'' # twoDigits 59)) = 2"
    by blast
  ultimately show ?thesis
    using sep by (simp add: toks)
qed

subsection \<open>Minutes away\<close>

lemma wellFormed_parts:
  assumes "spec_wellFormedTime tok hh mm"
  shows "\<exists>h m. splitOn (\<lambda>c. c = CHR '':'') tok = [h, m]
           \<and> Number_digits h = Some (int hh) \<and> Number_digits m = Some (int mm)"
proof -
  have colon: "list_all (\<lambda>c. \<not> c = CHR '':'') ds" if "list_all isDigit ds" for ds
    using that by (rule digits_no_colon)
  from assms have mm: "mm < 100" and hh: "hh < 100"
    by (simp_all add: spec_wellFormedTime_def)
  from assms consider
      (two) "tok = twoDigits hh @ CHR '':'' # twoDigits mm"
    | (one) "hh < 10" "tok = oneDigit hh @ CHR '':'' # twoDigits mm"
    by (auto simp: spec_wellFormedTime_def)
  then show ?thesis
  proof cases
    case two
    have "splitOn (\<lambda>c. c = CHR '':'') tok = [twoDigits hh, twoDigits mm]"
      unfolding two
      by (rule splitOn_one) (simp_all add: colon digits_twoDigits hh mm)
    then show ?thesis
      by (simp add: Number_digits_value digits_twoDigits hh mm)
  next
    case one
    have "splitOn (\<lambda>c. c = CHR '':'') tok = [oneDigit hh, twoDigits mm]"
      unfolding one
      by (rule splitOn_one) (simp_all add: colon digits_twoDigits digits_oneDigit one mm)
    then show ?thesis
      by (simp add: Number_digits_value digits_twoDigits digits_oneDigit one mm)
  qed
qed

lemma setHours_eq:
  "setHours tz base hours minutes =
     base - (base + tz) mod 86400000 + hours * 3600000 + minutes * 60000"
  by (simp add: setHours_def Let_def)

lemma rollOver_window:
  assumes "0 \<le> hours" "hours \<le> 23" "0 \<le> minutes" "minutes \<le> 59"
  shows "now \<le> rollOver now (setHours tz now hours minutes)"
    and "rollOver now (setHours tz now hours minutes) - now < 86400000"
proof -
  define L where "L = (now + tz) mod 86400000"
  have m: "0 \<le> L" "L < 86400000"
    by (simp_all add: L_def)
  have target: "setHours tz now hours minutes = now - L + hours * 3600000 + minutes * 60000"
    by (simp add: setHours_eq L_def)
  show "now \<le> rollOver now (setHours tz now hours minutes)"
    unfolding rollOver_def target using assms m by auto
  show "rollOver now (setHours tz now hours minutes) - now < 86400000"
    unfolding rollOver_def target using assms m by auto
qed

lemma rollOver_later_base:
  assumes "0 \<le> hours" "0 \<le> minutes" "now \<le> base"
  shows "now \<le> rollOver now (setHours tz base hours minutes)"
proof -
  define L where "L = (base + tz) mod 86400000"
  have m: "0 \<le> L" "L < 86400000"
    by (simp_all add: L_def)
  have target: "setHours tz base hours minutes = base - L + hours * 3600000 + minutes * 60000"
    by (simp add: setHours_eq L_def)
  show ?thesis
    unfolding rollOver_def target using assms m by auto
qed

lemma calculateMinutesAway_nth:
  assumes "i < length ts"
  shows "calculateMinutesAway tz now nows ts ! i =
     (ts ! i)\<lparr>minutesAway := minutesAwayOf tz now (nows i) (time (ts ! i))\<rparr>"
  using assms by (simp add: calculateMinutesAway_def nth_enumerate_eq)

text \<open>A token written with a dot passes the validator but has no colon to split at: the
  minutes are missing, the date is invalid and the result is \<^verbatim>\<open>NaN\<close>. Such a token is not
  of the form \<^verbatim>\<open>HH:MM\<close>.\<close>

lemma dotted_token_not_a_number:
  "validTimeToken ''08.05'' \<and> calculateMinutesFromTime tz now ''08.05'' = NaN"
proof -
  have "validTimeToken ''08.05''"
    by code_simp
  moreover have "splitOn (\<lambda>c. c = CHR '':'') ''08.05'' = [''08.05'']"
    by simp
  ultimately show ?thesis
    by (simp add: calculateMinutesFromTime_def)
qed

text \<open>Claim C8. For a well-formed time string the minutes away are a number, not below
  zero and below a full day: the target instant is never before now, because a time of
  day that has passed is moved to the next day. The helper of \<^verbatim>\<open>RushScraper\<close> likewise
  gives a number that is not negative, and its target is not before now when the second
  clock reading is not.\<close>

theorem minutesAway_nonneg:
  assumes wf: "spec_wellFormedTime tok hh mm"
  shows "(\<exists>n. calculateMinutesFromTime tz now tok = Num n \<and> 0 \<le> n \<and> n < 1440
             \<and> n = (rollOver now (setHours tz now (int hh) (int mm)) - now) div 60000)
       \<and> now \<le> rollOver now (setHours tz now (int hh) (int mm))
       \<and> (\<exists>k. minutesAwayOf tz now base tok = Num k \<and> 0 \<le> k)
       \<and> (now \<le> base \<longrightarrow> now \<le> rollOver now (setHours tz base (int hh) (int mm)))"
proof -
  from wellFormed_parts [OF wf] obtain h m where
    parts: "splitOn (\<lambda>c. c = CHR '':'') tok = [h, m]"
      "Number_digits h = Some (int hh)" "Number_digits m = Some (int mm)"
    by blast
  from wf have range: "(0::int) \<le> int hh" "int hh \<le> 23" "(0::int) \<le> int mm" "int mm \<le> 59"
    by (simp_all add: spec_wellFormedTime_def)
  define d where "d = rollOver now (setHours tz now (int hh) (int mm)) - now"
  have d: "0 \<le> d" "d < 86400000"
    using rollOver_window [OF range, of now tz] by (simp_all add: d_def)
  then have q: "0 \<le> d div 60000" "d div 60000 < 1440"
    by simp_all
  have calc: "calculateMinutesFromTime tz now tok = Num (max 0 (d div 60000))"
    by (simp add: calculateMinutesFromTime_def parts d_def Let_def)
  have first: "\<exists>n. calculateMinutesFromTime tz now tok = Num n \<and> 0 \<le> n \<and> n < 1440
             \<and> n = (rollOver now (setHours tz now (int hh) (int mm)) - now) div 60000"
    using calc q by (simp add: d_def max_def)
  have second: "now \<le> rollOver now (setHours tz now (int hh) (int mm))"
    using d by (simp add: d_def)
  have third: "\<exists>k. minutesAwayOf tz now base tok = Num k \<and> 0 \<le> k"
    by (simp add: minutesAwayOf_def parts Let_def)
  have fourth: "now \<le> base \<longrightarrow> now \<le> rollOver now (setHours tz base (int hh) (int mm))"
    using rollOver_later_base [OF range(1) range(3)] by blast
  from first second third fourth show ?thesis
    by blast
qed

theorem minutesAway_nonneg_witness:
  "spec_wellFormedTime ''06:05'' 6 5
   \<and> calculateMinutesFromTime 28800000 1700000030001 ''06:05'' = Num 1431
   \<and> 1700000030001 \<le> rollOver 1700000030001 (setHours 28800000 1700000030001 6 5)
   \<and> spec_wellFormedTime ''6:20'' 6 20
   \<and> calculateMinutesFromTime 28800000 1700000030001 ''6:20'' = Num 6"
proof -
  have a: "spec_wellFormedTime ''06:05'' 6 5"
    unfolding spec_wellFormedTime_def by code_simp
  have b: "spec_wellFormedTime ''6:20'' 6 20"
    unfolding spec_wellFormedTime_def by code_simp
  have ra: "rollOver 1700000030001 (setHours 28800000 1700000030001 6 5) = 1700085900000"
    by (simp add: rollOver_def setHours_def)
  have rb: "rollOver 1700000030001 (setHours 28800000 1700000030001 6 20) = 1700000400000"
    by (simp add: rollOver_def setHours_def)
  from minutesAway_nonneg [OF a, of 28800000 1700000030001 1700000030001]
  have "calculateMinutesFromTime 28800000 1700000030001 ''06:05'' = Num 1431"
    and "1700000030001 \<le> rollOver 1700000030001 (setHours 28800000 1700000030001 6 5)"
    by (auto simp: ra)
  moreover from minutesAway_nonneg [OF b, of 28800000 1700000030001 1700000030001]
  have "calculateMinutesFromTime 28800000 1700000030001 ''6:20'' = Num 6"
    by (auto simp: rb)
  ultimately show ?thesis
    using a b by simp
qed

subsection \<open>Extraction from the page\<close>

lemma uniqueTimes_distinct: "distinct (map time (uniqueTimes ts))"
proof -
  define G where "G x = nat (findIndex (\<lambda>u. time u = x) ts)" for x
  define K where
    "K = filter (\<lambda>(index, t). int index = findIndex (\<lambda>u. time u = time t) ts) (enumerate 0 ts)"
  have "distinct (map fst (enumerate 0 ts))"
    by simp
  then have "distinct (map fst K)"
    unfolding K_def by (rule distinct_map_filter)
  then have dK: "distinct K" and inj: "inj_on fst (set K)"
    by (simp_all add: distinct_map)
  have key: "fst e = G (time (snd e))" if "e \<in> set K" for e
    using that by (auto simp: K_def G_def)
  have "inj_on (time \<circ> snd) (set K)"
  proof (rule inj_onI)
    fix a b
    assume a: "a \<in> set K" and b: "b \<in> set K" and eq: "(time \<circ> snd) a = (time \<circ> snd) b"
    from key [OF a] key [OF b] eq have "fst a = fst b"
      by simp
    then show "a = b"
      by (rule inj_onD [OF inj _ a b])
  qed
  with dK have "distinct (map (time \<circ> snd) K)"
    by (simp add: distinct_map)
  then have "distinct (take 10 (map (time \<circ> snd) K))"
    by (rule distinct_take)
  then show ?thesis
    by (simp add: uniqueTimes_def K_def take_map)
qed

lemma uniqueTimes_length: "length (uniqueTimes ts) \<le> 10"
  by (simp add: uniqueTimes_def)

lemma postProcess_times:
  "map (time \<circ> postProcessTrain w) (enumerate n ts) = map time ts"
  by (induction ts arbitrary: n) (simp_all add: postProcessTrain_def)

lemma evaluateInPage_Some:
  assumes "evaluateInPage now cands orig dest ln = Some d"
  shows "nextTrains d = uniqueTimes (scanPage cands)" "line d = ln" "origin d = orig"
    "destination d = dest" "\<not> simulated d"
  using assms by (auto simp: evaluateInPage_def Let_def split: if_splits)

lemma extract_Some:
  assumes "extractTrainDataFromPage w orig dest ln = Inr (Some r)"
  shows "\<exists>cands. w_evaluate w = Inr cands
           \<and> map time (nextTrains r) = map time (uniqueTimes (scanPage cands))"
    and "nextTrains r \<noteq> []"
    and "estimatedTravelTime r = Some (estimateTravelTime orig dest)"
    and "\<not> simulated r" and "line r = ln" and "origin r = orig" and "destination r = dest"
proof -
  from assms obtain cands d where
    ev: "w_evaluate w = Inr cands" and
    d: "evaluateInPage (w_now_extracted w) cands orig dest ln = Some d" and
    ne: "nextTrains d \<noteq> []" and
    r: "r = d\<lparr> nextTrains := map (postProcessTrain w) (enumerate 0 (nextTrains d)),
               estimatedTravelTime := Some (estimateTravelTime orig dest),
               lastUpdated := Some (w_now_updated w),
               recordStatus := Some ''operational'' \<rparr>"
    by (auto simp: extractTrainDataFromPage_def await_def tryCatch_def
        split: sum.splits option.splits if_splits)
  from evaluateInPage_Some [OF d] r
  show "\<exists>cands. w_evaluate w = Inr cands
           \<and> map time (nextTrains r) = map time (uniqueTimes (scanPage cands))"
    using ev by (simp add: postProcess_times)
  show "nextTrains r \<noteq> []"
    using ne by (cases "nextTrains d") (simp_all add: r)
  show "estimatedTravelTime r = Some (estimateTravelTime orig dest)"
    by (simp add: r)
  show "\<not> simulated r" "line r = ln" "origin r = orig" "destination r = dest"
    using evaluateInPage_Some [OF d] by (simp_all add: r)
qed

lemma extract_dedup_cap:
  assumes "extractTrainDataFromPage w orig dest ln = Inr (Some r)"
  shows "distinct (map time (nextTrains r))" and "length (nextTrains r) \<le> 10"
proof -
  from extract_Some(1) [OF assms] obtain cands where
    t: "map time (nextTrains r) = map time (uniqueTimes (scanPage cands))"
    by blast
  show "distinct (map time (nextTrains r))"
    by (simp add: t uniqueTimes_distinct)
  have "length (map time (nextTrains r)) \<le> 10"
    unfolding t by (simp add: uniqueTimes_length)
  then show "length (nextTrains r) \<le> 10"
    by simp
qed

text \<open>Claim C4. The emitted trains have pairwise different time strings and are at most
  ten (the two lemmas above), but they are not put in chronological order: the comment
  at line 629 announces a sort that the code does not perform. On a page whose elements
  read 08:05 and then 07:59 the extraction returns the trains in that order.\<close>

theorem extraction_keeps_scan_order:
  "(case extractTrainDataFromPage
          (liveWorld [plainCapture ''08:05'', plainCapture ''08:05'',
                      plainCapture ''07:59'', plainCapture ''07:59''])
          ''Ayala'' ''Buendia'' ''MRT-3'' of
      Inr (Some r) \<Rightarrow>
        map time (nextTrains r) = [''08:05'', ''07:59'']
        \<and> map minutesAway (nextTrains r) = [Num 111, Num 105]
    | _ \<Rightarrow> False)"
  by code_simp

subsection \<open>The request always resolves\<close>

lemma initBrowser_frame:
  "cache (snd (initBrowser w s)) = cache s"
  "cacheDuration (snd (initBrowser w s)) = cacheDuration s"
  "useBrowserScraper (snd (initBrowser w s)) = useBrowserScraper s"
  by (simp_all add: initBrowser_def split: option.splits sum.splits)

lemma attempt_frame:
  "cache (snd (attemptDataExtraction w s orig dest ln)) = cache s"
  "cacheDuration (snd (attemptDataExtraction w s orig dest ln)) = cacheDuration s"
  using initBrowser_frame [of w s]
  by (cases "initBrowser w s"; simp add: attemptDataExtraction_def Let_def)+

lemma extractionSteps_Some:
  assumes "extractionSteps w orig dest ln = Inr (Some r)"
  shows "extractTrainDataFromPage w orig dest ln = Inr (Some r)"
proof -
  from assms obtain td where "extractTrainDataFromPage w orig dest ln = Inr td"
    and "(case td of Some d \<Rightarrow> Inr (Some d) | None \<Rightarrow> Inr None) = (Inr (Some r) :: failure + schedule option)"
    by (auto simp: extractionSteps_def await_def split: sum.splits if_splits)
  then show ?thesis
    by (cases td) simp_all
qed

lemma attempt_Some:
  assumes "attemptDataExtraction w s orig dest ln = (resp, s1)" and "tryCatch resp None = Some r"
  shows "extractTrainDataFromPage w orig dest ln = Inr (Some r)"
proof -
  from assms have "extractionSteps w orig dest ln = Inr (Some r)"
    by (cases "initBrowser w s")
      (auto simp: attemptDataExtraction_def Let_def tryCatch_def await_def
        split: if_splits sum.splits)
  then show ?thesis
    by (rule extractionSteps_Some)
qed

lemma estimateTravelTime_pos: "5 \<le> estimateTravelTime orig dest"
  by (simp add: estimateTravelTime_def Let_def)

lemma simulated_wellFormed:
  "spec_wellFormedRecord (simulateTrainData fmt now orig dest ln)"
  using js_rem_10_bounds [of "hashString orig"]
  by (simp add: spec_wellFormedRecord_def simulated_fields)

lemma list_all_Map_set:
  "list_all P ps \<Longrightarrow> P (k, v) \<Longrightarrow> list_all P (Map_set k v ps)"
  by (induction ps) simp_all

lemma cacheOk_store:
  "cacheOk s \<Longrightarrow> spec_wellFormedRecord r \<Longrightarrow> cacheOk (storeRecord w k r s)"
  by (simp add: cacheOk_def storeRecord_def list_all_Map_set)

lemma cacheOk_constructor: "cacheOk (constructor opts env)"
  by (simp add: cacheOk_def constructor_def)

lemma cacheOk_cleanup: "cacheOk (snd (cleanup w s))"
  by (simp add: cleanup_result cacheOk_def)

lemma cachedRecord_wellFormed:
  assumes "cacheOk s" and "cachedRecord s now k = Some d"
  shows "spec_wellFormedRecord d"
proof -
  from assms(2) obtain e where e: "map_of (cache s) k = Some e" and d: "d = data e"
    by (auto simp: cachedRecord_def split: option.splits if_splits)
  from e have "(k, e) \<in> set (cache s)"
    by (rule map_of_SomeD)
  with assms(1) show ?thesis
    by (auto simp: cacheOk_def list_all_iff d)
qed

lemma scrapeFresh_cases:
  obtains (live) resp s1 r where
      "attemptDataExtraction w s orig dest ln = (resp, s1)" "tryCatch resp None = Some r"
      "scrapeFresh w s orig dest ln = (Inr r, storeRecord w (getCacheKey orig dest) r s1)"
  | (fallback) resp s1 where
      "attemptDataExtraction w s orig dest ln = (resp, s1)" "tryCatch resp None = None"
      "scrapeFresh w s orig dest ln =
         (Inr (simulateTrainData (w_toLocaleTimeString w) (w_now_simulate w) orig dest ln),
          storeRecord w (getCacheKey orig dest)
            (simulateTrainData (w_toLocaleTimeString w) (w_now_simulate w) orig dest ln) s1)"
proof (cases "attemptDataExtraction w s orig dest ln")
  case (Pair resp s1)
  show ?thesis
  proof (cases "tryCatch resp None")
    case None
    with Pair show ?thesis
      by (intro fallback [of resp s1]) (simp_all add: scrapeFresh_def Let_def)
  next
    case (Some r)
    with Pair show ?thesis
      by (intro live [of resp s1 r]) (simp_all add: scrapeFresh_def Let_def)
  qed
qed

lemma scrapeFresh_total:
  assumes "cacheOk s"
  shows "\<exists>r s'. scrapeFresh w s orig dest ln = (Inr r, s') \<and> spec_wellFormedRecord r \<and> cacheOk s'"
proof (cases rule: scrapeFresh_cases [of w s orig dest ln])
  case (live resp s1 r)
  from attempt_Some [OF live(1,2)] have "estimatedTravelTime r = Some (estimateTravelTime orig dest)"
    by (rule extract_Some)
  then have wf: "spec_wellFormedRecord r"
    using estimateTravelTime_pos [of orig dest] by (simp add: spec_wellFormedRecord_def)
  from attempt_frame(1) [of w s orig dest ln] live(1) assms have "cacheOk s1"
    by (simp add: cacheOk_def)
  with wf live(3) show ?thesis
    by (simp add: cacheOk_store)
next
  case (fallback resp s1)
  from attempt_frame(1) [of w s orig dest ln] fallback(1) assms have "cacheOk s1"
    by (simp add: cacheOk_def)
  with fallback(3) show ?thesis
    by (simp add: cacheOk_store simulated_wellFormed)
qed

text \<open>Claim C1. From a scraper whose cached records are well-formed (the fresh scraper
  is one, and every request keeps it so), a request for any origin, destination and line,
  in any world and with the toggle either way, resolves to a record whose estimated
  travel time is present and not negative; and when the cache misses and the attempt
  yields no record, the record returned is the simulated one.\<close>

theorem scrape_total:
  assumes inv: "cacheOk s"
  shows "\<exists>r s'. scrapeTrainSchedule w s orig dest ln = (Inr r, s')
           \<and> spec_wellFormedRecord r \<and> cacheOk s'
           \<and> (cachedRecord s (w_now_check w) (getCacheKey orig dest) = None
                \<and> tryCatch (fst (attemptDataExtraction w s orig dest ln)) None = None
              \<longrightarrow> r = simulateTrainData (w_toLocaleTimeString w) (w_now_simulate w) orig dest ln)"
proof (cases "cachedRecord s (w_now_check w) (getCacheKey orig dest)")
  case (Some d)
  then have "scrapeTrainSchedule w s orig dest ln = (Inr d, s)"
    by (rule scrape_hit)
  with Some inv cachedRecord_wellFormed [OF inv Some] show ?thesis
    by simp
next
  case None
  then have miss: "scrapeTrainSchedule w s orig dest ln = scrapeFresh w s orig dest ln"
    by (rule scrape_miss)
  from scrapeFresh_total [OF inv, of w orig dest ln] obtain r s' where
    f: "scrapeFresh w s orig dest ln = (Inr r, s')" "spec_wellFormedRecord r" "cacheOk s'"
    by blast
  have "r = simulateTrainData (w_toLocaleTimeString w) (w_now_simulate w) orig dest ln"
    if "tryCatch (fst (attemptDataExtraction w s orig dest ln)) None = None"
    using scrapeFresh_nothing [of w s orig dest ln "fst (attemptDataExtraction w s orig dest ln)"
        "snd (attemptDataExtraction w s orig dest ln)"] that f(1)
    by simp
  with miss f show ?thesis
    by simp
qed

theorem scrape_total_witness:
  "cacheOk (constructor browserOptions emptyEnvironment)
   \<and> useBrowserScraper (constructor browserOptions emptyEnvironment)
   \<and> cachedRecord (constructor browserOptions emptyEnvironment) (w_now_check offlineWorld)
        (getCacheKey ''Ayala'' ''Buendia'') = None
   \<and> tryCatch (fst (attemptDataExtraction offlineWorld
        (constructor browserOptions emptyEnvironment) ''Ayala'' ''Buendia'' ''MRT-3'')) None = None
   \<and> fst (scrapeTrainSchedule offlineWorld (constructor browserOptions emptyEnvironment)
        ''Ayala'' ''Buendia'' ''MRT-3'')
      = Inr (simulateTrainData (w_toLocaleTimeString offlineWorld) (w_now_simulate offlineWorld)
          ''Ayala'' ''Buendia'' ''MRT-3'')
   \<and> spec_wellFormedRecord (simulateTrainData (w_toLocaleTimeString offlineWorld)
        (w_now_simulate offlineWorld) ''Ayala'' ''Buendia'' ''MRT-3'')"
proof -
  have inv: "cacheOk (constructor browserOptions emptyEnvironment)"
    by (rule cacheOk_constructor)
  have on: "useBrowserScraper (constructor browserOptions emptyEnvironment)"
    by (simp add: constructor_def browserOptions_def defaultOptions_def)
  have miss: "cachedRecord (constructor browserOptions emptyEnvironment) (w_now_check offlineWorld)
        (getCacheKey ''Ayala'' ''Buendia'') = None"
    by (simp add: cachedRecord_def constructor_def)
  have noRecord: "tryCatch (fst (attemptDataExtraction offlineWorld
        (constructor browserOptions emptyEnvironment) ''Ayala'' ''Buendia'' ''MRT-3'')) None = None"
    by (simp add: attemptDataExtraction_def initBrowser_def constructor_def offlineWorld_def
        liveWorld_def browserOptions_def defaultOptions_def await_def tryCatch_def Let_def)
  from scrape_total [OF inv, of offlineWorld "''Ayala''" "''Buendia''" "''MRT-3''"]
  obtain r s' where
    res: "scrapeTrainSchedule offlineWorld (constructor browserOptions emptyEnvironment)
        ''Ayala'' ''Buendia'' ''MRT-3'' = (Inr r, s')" and
    wf: "spec_wellFormedRecord r" and
    sim: "cachedRecord (constructor browserOptions emptyEnvironment) (w_now_check offlineWorld)
        (getCacheKey ''Ayala'' ''Buendia'') = None
      \<and> tryCatch (fst (attemptDataExtraction offlineWorld
        (constructor browserOptions emptyEnvironment) ''Ayala'' ''Buendia'' ''MRT-3'')) None = None
      \<longrightarrow> r = simulateTrainData (w_toLocaleTimeString offlineWorld) (w_now_simulate offlineWorld)
          ''Ayala'' ''Buendia'' ''MRT-3''"
    by blast
  from sim miss noRecord
  have r: "r = simulateTrainData (w_toLocaleTimeString offlineWorld) (w_now_simulate offlineWorld)
          ''Ayala'' ''Buendia'' ''MRT-3''"
    by blast
  from res wf
  have "fst (scrapeTrainSchedule offlineWorld (constructor browserOptions emptyEnvironment)
        ''Ayala'' ''Buendia'' ''MRT-3'')
      = Inr (simulateTrainData (w_toLocaleTimeString offlineWorld) (w_now_simulate offlineWorld)
          ''Ayala'' ''Buendia'' ''MRT-3'')
     \<and> spec_wellFormedRecord (simulateTrainData (w_toLocaleTimeString offlineWorld)
        (w_now_simulate offlineWorld) ''Ayala'' ''Buendia'' ''MRT-3'')"
    by (simp add: r)
  with inv on miss noRecord show ?thesis
    by simp
qed

subsection \<open>Failures\<close>

lemma scrapeFresh_fallback:
  assumes "tryCatch (fst (attemptDataExtraction w s orig dest ln)) None = None"
  shows "fst (scrapeFresh w s orig dest ln) =
     Inr (simulateTrainData (w_toLocaleTimeString w) (w_now_simulate w) orig dest ln)"
  using assms by (cases "attemptDataExtraction w s orig dest ln") (simp add: scrapeFresh_def Let_def)

lemma scrape_resolves:
  "\<exists>r s'. scrapeTrainSchedule w s orig dest ln = (Inr r, s')"
proof (cases "cachedRecord s (w_now_check w) (getCacheKey orig dest)")
  case None
  then have "scrapeTrainSchedule w s orig dest ln = scrapeFresh w s orig dest ln"
    by (rule scrape_miss)
  then show ?thesis
    by (cases rule: scrapeFresh_cases [of w s orig dest ln]) simp_all
next
  case (Some d)
  then show ?thesis
    by (simp add: scrape_hit)
qed

lemma extract_nothing:
  assumes "isl (w_settle_extract w) \<or> isl (w_evaluate w)
     \<or> (case w_evaluate w of Inl e \<Rightarrow> False | Inr cands \<Rightarrow> scanPage cands = [])"
  shows "extractTrainDataFromPage w orig dest ln = Inr None"
  using assms
  by (auto simp: extractTrainDataFromPage_def await_def tryCatch_def evaluateInPage_def isl_def
      split: sum.splits)

lemma steps_nothing:
  assumes "isl (w_newContext w) \<or> isl (w_newPage w) \<or> isl (w_goto w)
      \<or> isl (w_settle_loaded w)
      \<or> (w_selectTrainLine w = Inr True \<and> isl (w_settle_line w))
      \<or> isl (w_performStationSearch w) \<or> w_performStationSearch w = Inr False
      \<or> isl (w_settle_search w) \<or> isl (w_settle_extract w)
      \<or> isl (w_evaluate w)
      \<or> (case w_evaluate w of Inl e \<Rightarrow> False | Inr cands \<Rightarrow> scanPage cands = [])"
  shows "tryCatch (extractionSteps w orig dest ln) None = None"
proof -
  consider (early) "isl (w_newContext w) \<or> isl (w_newPage w) \<or> isl (w_goto w)
      \<or> isl (w_settle_loaded w)
      \<or> (w_selectTrainLine w = Inr True \<and> isl (w_settle_line w))
      \<or> isl (w_performStationSearch w) \<or> w_performStationSearch w = Inr False
      \<or> isl (w_settle_search w)"
    | (page) "isl (w_settle_extract w) \<or> isl (w_evaluate w)
     \<or> (case w_evaluate w of Inl e \<Rightarrow> False | Inr cands \<Rightarrow> scanPage cands = [])"
    using assms by blast
  then show ?thesis
  proof cases
    case early
    then show ?thesis
      by (auto simp: extractionSteps_def await_def tryCatch_def selectTrainLine_def
          performStationSearch_def isl_def split: sum.splits)
  next
    case page
    from extract_nothing [OF this] show ?thesis
      by (auto simp: extractionSteps_def await_def tryCatch_def split: sum.splits)
  qed
qed

lemma attempt_nothing:
  assumes "attemptEnds w s"
  shows "tryCatch (fst (attemptDataExtraction w s orig dest ln)) None = None"
proof (cases "useBrowserScraper s")
  case False
  then show ?thesis
    by (simp add: attempt_disabled tryCatch_def)
next
  case True
  show ?thesis
  proof (cases "browser s = None \<and> isl (w_launch w)")
    case True
    then show ?thesis
      by (auto simp: attemptDataExtraction_def initBrowser_def await_def tryCatch_def isl_def Let_def)
  next
    case False
    with assms have "tryCatch (extractionSteps w orig dest ln) None = None"
      by (intro steps_nothing) (simp add: attemptEnds_def)
    then show ?thesis
      by (cases "initBrowser w s")
        (auto simp: attemptDataExtraction_def await_def tryCatch_def Let_def split: sum.splits)
  qed
qed

lemma initBrowser_launch_fails:
  assumes "browser s = None" and "w_launch w = Inl e"
  shows "initBrowser w s = (Inl e, s\<lparr>browser := None\<rparr>)"
  using assms by (simp add: initBrowser_def)

lemma initBrowser_launches:
  assumes "browser s = None" and "w_launch w = Inr b"
  shows "initBrowser w s = (Inr b, s\<lparr>browser := Some b\<rparr>)"
  using assms by (simp add: initBrowser_def)


text \<open>Claim C2, as amended. No failure makes the request reject, whatever the world
  answers (a launch failure included, which the attempt catches). When the cache misses
  and a failure leaves the attempt without a record, the request returns the simulated
  record. When a launch fails, \<^verbatim>\<open>_initBrowser\<close> hands the error to its caller and leaves
  the browser reference \<^verbatim>\<open>null\<close>, so that the next call launches again.\<close>

theorem failures_absorbed:
  "(\<exists>r s'. scrapeTrainSchedule w s orig dest ln = (Inr r, s'))
   \<and> (cachedRecord s (w_now_check w) (getCacheKey orig dest) = None \<and> attemptEnds w s
        \<longrightarrow> fst (scrapeTrainSchedule w s orig dest ln) =
              Inr (simulateTrainData (w_toLocaleTimeString w) (w_now_simulate w) orig dest ln))
   \<and> (browser s = None \<and> w_launch w = Inl e
        \<longrightarrow> initBrowser w s = (Inl e, s\<lparr>browser := None\<rparr>)
            \<and> (\<forall>w' b. w_launch w' = Inr b
                  \<longrightarrow> initBrowser w' (snd (initBrowser w s)) = (Inr b, s\<lparr>browser := Some b\<rparr>)))"
proof (intro conjI impI)
  show "\<exists>r s'. scrapeTrainSchedule w s orig dest ln = (Inr r, s')"
    by (rule scrape_resolves)
next
  assume a: "cachedRecord s (w_now_check w) (getCacheKey orig dest) = None \<and> attemptEnds w s"
  then have "tryCatch (fst (attemptDataExtraction w s orig dest ln)) None = None"
    by (simp add: attempt_nothing)
  from scrapeFresh_fallback [OF this] a
  show "fst (scrapeTrainSchedule w s orig dest ln) =
      Inr (simulateTrainData (w_toLocaleTimeString w) (w_now_simulate w) orig dest ln)"
    by (simp add: scrape_miss)
next
  assume a: "browser s = None \<and> w_launch w = Inl e"
  then show "initBrowser w s = (Inl e, s\<lparr>browser := None\<rparr>)"
    by (simp add: initBrowser_launch_fails)
next
  assume a: "browser s = None \<and> w_launch w = Inl e"
  then have "initBrowser w s = (Inl e, s\<lparr>browser := None\<rparr>)"
    by (simp add: initBrowser_launch_fails)
  then show "\<forall>w' b. w_launch w' = Inr b
      \<longrightarrow> initBrowser w' (snd (initBrowser w s)) = (Inr b, s\<lparr>browser := Some b\<rparr>)"
    by (simp add: initBrowser_launches)
qed

text \<open>Claim C2 as stated has every failure other than a launch failure end in the
  simulated record. A failure that a step absorbs does not: here the line selection
  throws and the token 24:00 is rejected, and the request still returns the live record
  read from the token 08:05.\<close>

theorem absorbed_failure_live_record:
  "w_selectTrainLine ((liveWorld [plainCapture ''24:00'', plainCapture ''08:05''])
        \<lparr>w_selectTrainLine := Inl InteractionFailure\<rparr>) = Inl InteractionFailure
   \<and> \<not> validTimeToken ''24:00''
   \<and> (case scrapeTrainSchedule
             ((liveWorld [plainCapture ''24:00'', plainCapture ''08:05''])
                \<lparr>w_selectTrainLine := Inl InteractionFailure\<rparr>)
             (constructor browserOptions emptyEnvironment) ''Ayala'' ''Buendia'' ''MRT-3'' of
         (Inr r, s') \<Rightarrow> \<not> simulated r \<and> map time (nextTrains r) = [''08:05'']
       | (Inl e, s') \<Rightarrow> False)"
  by code_simp

theorem failures_absorbed_witness:
  "cachedRecord (constructor browserOptions emptyEnvironment) (w_now_check offlineWorld)
        (getCacheKey ''Ayala'' ''Buendia'') = None
   \<and> attemptEnds offlineWorld (constructor browserOptions emptyEnvironment)
   \<and> fst (scrapeTrainSchedule offlineWorld (constructor browserOptions emptyEnvironment)
        ''Ayala'' ''Buendia'' ''MRT-3'')
      = Inr (simulateTrainData (w_toLocaleTimeString offlineWorld) (w_now_simulate offlineWorld)
          ''Ayala'' ''Buendia'' ''MRT-3'')
   \<and> browser (constructor browserOptions emptyEnvironment) = None
   \<and> w_launch offlineWorld = Inl LaunchFailure
   \<and> initBrowser offlineWorld (constructor browserOptions emptyEnvironment)
      = (Inl LaunchFailure, (constructor browserOptions emptyEnvironment)\<lparr>browser := None\<rparr>)
   \<and> w_launch (liveWorld []) = Inr 1
   \<and> initBrowser (liveWorld [])
        (snd (initBrowser offlineWorld (constructor browserOptions emptyEnvironment)))
      = (Inr 1, (constructor browserOptions emptyEnvironment)\<lparr>browser := Some 1\<rparr>)"
proof -
  have miss: "cachedRecord (constructor browserOptions emptyEnvironment) (w_now_check offlineWorld)
        (getCacheKey ''Ayala'' ''Buendia'') = None"
    by (simp add: cachedRecord_def constructor_def)
  have nob: "browser (constructor browserOptions emptyEnvironment) = None"
    by (simp add: constructor_def)
  have fails: "w_launch offlineWorld = Inl LaunchFailure"
    by (simp add: offlineWorld_def)
  have ok: "w_launch (liveWorld []) = Inr 1"
    by (simp add: liveWorld_def)
  have ends: "attemptEnds offlineWorld (constructor browserOptions emptyEnvironment)"
    by (simp add: attemptEnds_def nob fails)
  from failures_absorbed [of offlineWorld "constructor browserOptions emptyEnvironment"
      "''Ayala''" "''Buendia''" "''MRT-3''" LaunchFailure] miss nob fails ok ends
  show ?thesis
    by blast
qed

end
